theory Spec2Isabelle
  imports Main
begin

section \<open>The controller state\<close>

text \<open>
  Organisms live in a store addressed by pointers (\<open>emp::Ptr<Organism>\<close>); address \<open>0\<close>
  is \<open>nullptr\<close>.  The store is \<open>heap\<close> (the object at an address), \<open>live\<close> (the
  addresses allocated and not yet deleted) and \<open>next_ptr\<close> (the next address \<open>NewPtr\<close>
  hands out).  \<open>Organism::IsEmpty\<close> is virtual: \<open>false\<close> in the base class, overridden
  by the placeholder class built in \<open>SetupEmpty\<close>; the two constructors below are the two
  dynamic types, \<open>'g\<close> being whatever a concrete organism carries.
\<close>

type_synonym ptr = nat

datatype 'g Organism = EmptyOrganism | Org 'g

fun IsEmpty :: "'g Organism \<Rightarrow> bool" where
  "IsEmpty EmptyOrganism = True"
| "IsEmpty (Org g) = False"

text \<open>
  An \<open>OrgPosition\<close> is a population pointer and an index; the default-constructed
  \<open>OrgPosition()\<close> has no population.  A population is referred to by its index in
  \<open>pops\<close>, which is also its id (\<open>AddPopulation\<close> assigns \<open>pops.size()\<close>).
\<close>

datatype OrgPosition = OrgPosition (PopPtr: "nat option") (Pos: nat)

record Population =
  Population_name :: string
  orgs :: "ptr list"

text \<open>
  \<open>emp::Random\<close> is outside the repository.  It is represented by the sequence of raw
  values it will produce and the number already consumed; \<open>GetUInt r n\<close> delivers the
  next value reduced into \<open>[0, n)\<close>, the range \<open>emp::Random::GetUInt(n)\<close> promises.
\<close>

record Random =
  draws :: "nat \<Rightarrow> nat"
  used :: nat

definition GetUInt :: "Random \<Rightarrow> nat \<Rightarrow> nat \<times> Random" where
  "GetUInt r n = (draws r (used r) mod n, r\<lparr>used := Suc (used r)\<rparr>)"

text \<open>
  A module as the controller sees it (\<open>ModuleBase\<close>): its name, its \<open>has_signal\<close> bit
  set indexed by signal id, and, for an organism manager, the factory
  \<open>Make<Organism>(random)\<close>.
\<close>

record 'g ModuleBase =
  Module_name :: string
  has_signal :: "nat \<Rightarrow> bool"
  Make :: "Random \<Rightarrow> 'g \<times> Random"

text \<open>
  Module handlers are plugin code outside the kernel.  Triggering a signal is recorded in
  \<open>trace\<close> with the signal's arguments, and so is every \<open>Delete\<close> of a module,
  population or organism, so that the order of signals and releases can be read off.
\<close>

datatype event =
    BeforeExit
  | BeforeDeath OrgPosition
  | BeforePlacement ptr OrgPosition OrgPosition
  | OnPlacement OrgPosition
  | BeforeSwap OrgPosition OrgPosition
  | OnSwap OrgPosition OrgPosition
  | BeforePopResize nat nat
  | OnPopResize nat nat
  | OnInjectReady ptr nat
  | BeforeRepro OrgPosition
  | OnOffspringReady ptr OrgPosition nat
  | DeleteModule nat
  | DeletePopulation nat
  | DeleteOrganism ptr

text \<open>
  The messages handed to \<open>error_man.AddError\<close>, one constructor per call site in
  MABE.hpp, carrying the values the message is built from.
\<close>

datatype error_msg =
    InjectFailed nat
  | InjectInstanceFailed
  | InvalidPopName string string nat

record 'g MABE =
  modules :: "'g ModuleBase list"
  sig_ptrs :: "nat list list"
  rescan_signals :: bool
  pops :: "Population list"
  empty_org :: ptr
  heap :: "ptr \<Rightarrow> 'g Organism"
  live :: "ptr set"
  next_ptr :: ptr
  random_gen :: Random
  trace :: "event list"
  errors :: "error_msg list"

definition Trigger :: "event \<Rightarrow> 'g MABE \<Rightarrow> 'g MABE" where
  "Trigger ev s = s\<lparr>trace := trace s @ [ev]\<rparr>"

definition AddError :: "error_msg \<Rightarrow> 'g MABE \<Rightarrow> 'g MABE" where
  "AddError e s = s\<lparr>errors := errors s @ [e]\<rparr>"

definition NewPtr :: "'g Organism \<Rightarrow> 'g MABE \<Rightarrow> ptr \<times> 'g MABE" where
  "NewPtr v s =
     (next_ptr s,
      s\<lparr>heap := (heap s)(next_ptr s := v),
        live := insert (next_ptr s) (live s),
        next_ptr := Suc (next_ptr s)\<rparr>)"

definition Delete :: "ptr \<Rightarrow> 'g MABE \<Rightarrow> 'g MABE" where
  "Delete p s = s\<lparr>live := live s - {p}, trace := trace s @ [DeleteOrganism p]\<rparr>"

text \<open>\<open>org.CloneOrganism()\<close>: a new object with the content of the one at \<open>p\<close>.\<close>

definition CloneOrganism :: "ptr \<Rightarrow> 'g MABE \<Rightarrow> ptr \<times> 'g MABE" where
  "CloneOrganism p s = NewPtr (heap s p) s"

subsection \<open>Populations and positions (Population.hpp)\<close>

text \<open>
  Modelled from the spec: the accessors of \<open>Population\<close> and \<open>OrgPosition\<close>, whose
  header is missing.  The spec (sections 3 and 5): a position is valid when its population
  exists and its index is in bounds; a slot always holds a real organism or the one shared
  sentinel, and occupancy is tested by sentinel identity.  Reading a slot outside the
  vector is undefined in the source; \<open>OrgAt\<close> answers \<open>nullptr\<close> there.
\<close>

definition GetSize :: "'g MABE \<Rightarrow> nat \<Rightarrow> nat" where
  "GetSize s pop = length (orgs (pops s ! pop))"

definition IsValid :: "'g MABE \<Rightarrow> OrgPosition \<Rightarrow> bool" where
  "IsValid s pos =
     (case PopPtr pos of
        None \<Rightarrow> False
      | Some pop \<Rightarrow> pop < length (pops s) \<and> Pos pos < GetSize s pop)"

definition OrgAt :: "'g MABE \<Rightarrow> OrgPosition \<Rightarrow> ptr" where
  "OrgAt s pos =
     (case PopPtr pos of
        None \<Rightarrow> 0
      | Some pop \<Rightarrow> if IsValid s pos then orgs (pops s ! pop) ! Pos pos else 0)"

definition pos_IsEmpty :: "'g MABE \<Rightarrow> OrgPosition \<Rightarrow> bool" where
  "pos_IsEmpty s pos = (IsValid s pos \<and> OrgAt s pos = empty_org s)"

definition IsOccupied :: "'g MABE \<Rightarrow> OrgPosition \<Rightarrow> bool" where
  "IsOccupied s pos = (IsValid s pos \<and> OrgAt s pos \<noteq> empty_org s)"

definition IteratorAt :: "nat \<Rightarrow> nat \<Rightarrow> OrgPosition" where
  "IteratorAt pop k = OrgPosition (Some pop) k"

definition SetOrg :: "OrgPosition \<Rightarrow> ptr \<Rightarrow> 'g MABE \<Rightarrow> 'g MABE" where
  "SetOrg pos p s =
     (case PopPtr pos of
        None \<Rightarrow> s
      | Some pop \<Rightarrow>
          if IsValid s pos
          then s\<lparr>pops := (pops s)[pop := (pops s ! pop)\<lparr>orgs := (orgs (pops s ! pop))[Pos pos := p]\<rparr>]\<rparr>
          else s)"

subsection \<open>The choke points of MABEBase (MABEBase.hpp)\<close>

text \<open>
  Modelled from the spec: \<open>ClearOrgAt\<close>, missing with MABEBase.hpp.  Spec 4.3: "if
  occupied by a real organism, fires BeforeDeath(pos), replaces the slot with the sentinel
  reference, releases the organism."
\<close>

definition ClearOrgAt :: "OrgPosition \<Rightarrow> 'g MABE \<Rightarrow> 'g MABE" where
  "ClearOrgAt pos s =
     (if IsOccupied s pos
      then let s1 = Trigger (BeforeDeath pos) s;
               old = OrgAt s1 pos;
               s2 = SetOrg pos (empty_org s1) s1
           in Delete old s2
      else s)"

text \<open>
  Modelled from the spec: \<open>SwapOrgs\<close>, missing with MABEBase.hpp.  Spec 4.3: "fires
  BeforeSwap, exchanges slot contents (may cross populations), fires OnSwap."
\<close>

definition SwapOrgs :: "OrgPosition \<Rightarrow> OrgPosition \<Rightarrow> 'g MABE \<Rightarrow> 'g MABE" where
  "SwapOrgs pos1 pos2 s =
     (let s1 = Trigger (BeforeSwap pos1 pos2) s;
          org1 = OrgAt s1 pos1;
          org2 = OrgAt s1 pos2;
          s2 = SetOrg pos2 org1 (SetOrg pos1 org2 s1)
      in Trigger (OnSwap pos1 pos2) s2)"

text \<open>
  Modelled from the spec: \<open>AddOrgAt\<close>, missing with MABEBase.hpp.  Spec 4.3: "fires
  BeforePlacement(org, pos, parent_pos), installs org at pos (releasing whatever was
  previously there, unless it was the sentinel), fires OnPlacement(pos)."
\<close>

definition AddOrgAt :: "ptr \<Rightarrow> OrgPosition \<Rightarrow> OrgPosition \<Rightarrow> 'g MABE \<Rightarrow> 'g MABE" where
  "AddOrgAt org_ptr pos ppos s =
     (let s1 = Trigger (BeforePlacement org_ptr pos ppos) s;
          old = OrgAt s1 pos;
          s2 = SetOrg pos org_ptr s1;
          s3 = (if old \<noteq> empty_org s2 then Delete old s2 else s2)
      in Trigger (OnPlacement pos) s3)"

text \<open>
  Modelled from the spec: \<open>ResizePop\<close>, missing with MABEBase.hpp.  Spec 4.3: "fires
  BeforePopResize(pop, n); grows with sentinel-filled new slots or shrinks (removed slots
  must be empty); fires OnPopResize(pop, old_size)."
\<close>

definition ResizePop :: "nat \<Rightarrow> nat \<Rightarrow> 'g MABE \<Rightarrow> 'g MABE" where
  "ResizePop pop n s =
     (let s1 = Trigger (BeforePopResize pop n) s;
          old_size = GetSize s1 pop;
          cells = orgs (pops s1 ! pop);
          s2 = s1\<lparr>pops := (pops s1)[pop := (pops s1 ! pop)
                  \<lparr>orgs := take n cells @ replicate (n - old_size) (empty_org s1)\<rparr>]\<rparr>
      in Trigger (OnPopResize pop old_size) s2)"

subsection \<open>Population management in MABE.hpp\<close>

text \<open>\<open>MoveOrg\<close>: "kill anything that previously occupied the target position".\<close>

definition MoveOrg :: "OrgPosition \<Rightarrow> OrgPosition \<Rightarrow> 'g MABE \<Rightarrow> 'g MABE" where
  "MoveOrg from_pos to_pos s = SwapOrgs from_pos to_pos (ClearOrgAt to_pos s)"

text \<open>
  \<open>ClearPop\<close> walks the iterator from \<open>pop.begin()\<close> to \<open>pop.end()\<close>; clearing a
  slot does not change the size, so the walk visits the indices \<open>0 ..< GetSize\<close>.
\<close>

definition ClearPop :: "nat \<Rightarrow> 'g MABE \<Rightarrow> 'g MABE" where
  "ClearPop pop s = fold (\<lambda>k. ClearOrgAt (IteratorAt pop k)) [0..<GetSize s pop] s"

definition EmptyPop :: "nat \<Rightarrow> nat \<Rightarrow> 'g MABE \<Rightarrow> 'g MABE" where
  "EmptyPop pop new_size s = ResizePop pop new_size (ClearPop pop s)"

text \<open>
  \<open>InjectAt\<close>; the \<open>const Organism &\<close> argument is the address of the organism
  referred to.  \<open>emp_assert(pos.IsValid())\<close> is a debug-build check and is a hypothesis
  where a theorem needs it.
\<close>

definition InjectAt :: "ptr \<Rightarrow> OrgPosition \<Rightarrow> 'g MABE \<Rightarrow> 'g MABE" where
  "InjectAt org pos s =
     (let (inject_org, s1) = CloneOrganism org s;
          s2 = Trigger (OnInjectReady inject_org (the (PopPtr pos))) s1
      in AddOrgAt inject_org pos (OrgPosition None 0) s2)"

text \<open>
  \<open>CopyPop\<close>.  The loop bound \<open>from_pop.GetSize()\<close> is read after \<open>EmptyPop\<close>; the
  body leaves every size as it is, so the loop runs over a fixed range.
\<close>

definition CopyPop_body :: "nat \<Rightarrow> nat \<Rightarrow> nat \<Rightarrow> 'g MABE \<Rightarrow> 'g MABE" where
  "CopyPop_body from_pop to_pop k s =
     (if OrgAt s (IteratorAt from_pop k) = empty_org s then s
      else InjectAt (OrgAt s (IteratorAt from_pop k)) (IteratorAt to_pop k) s)"

definition CopyPop :: "nat \<Rightarrow> nat \<Rightarrow> 'g MABE \<Rightarrow> 'g MABE" where
  "CopyPop from_pop to_pop s =
     (let s1 = EmptyPop to_pop (GetSize s from_pop) s
      in fold (CopyPop_body from_pop to_pop) [0..<GetSize s1 from_pop] s1)"

subsection \<open>Injection (MABE.hpp)\<close>

text \<open>
  A population's placement strategy for injection (\<open>PlaceInject\<close>) is a
  \<open>std::function\<close> installed from outside; it is a parameter here, giving the position it
  proposes in the current state.  \<open>Collection\<close> is a set of positions and \<open>Insert\<close>
  adds one; duplicates collapse.
\<close>

type_synonym Collection = "OrgPosition set"

type_synonym 'g PlaceInject = "'g MABE \<Rightarrow> nat \<Rightarrow> ptr \<Rightarrow> OrgPosition"

text \<open>\<open>Inject(Population &, const Organism &, size_t)\<close>: one pass of the loop body, then the loop.\<close>

definition Inject_body ::
  "'g PlaceInject \<Rightarrow> nat \<Rightarrow> ptr \<Rightarrow> nat \<Rightarrow> Collection \<times> 'g MABE \<Rightarrow> Collection \<times> 'g MABE" where
  "Inject_body PlaceInject pop org i cs =
     (let (placement_set, s) = cs;
          (inject_org, s1) = CloneOrganism org s;
          s2 = Trigger (OnInjectReady inject_org pop) s1;
          pos = PlaceInject s2 pop inject_org
      in if IsValid s2 pos
         then (insert pos placement_set, AddOrgAt inject_org pos (OrgPosition None 0) s2)
         else (placement_set, AddError (InjectFailed i) (Delete inject_org s2)))"

definition Inject ::
  "'g PlaceInject \<Rightarrow> nat \<Rightarrow> ptr \<Rightarrow> nat \<Rightarrow> 'g MABE \<Rightarrow> Collection \<times> 'g MABE" where
  "Inject PlaceInject pop org copy_count s =
     fold (Inject_body PlaceInject pop org) [0..<copy_count] ({}, s)"

definition InjectInstance ::
  "'g PlaceInject \<Rightarrow> nat \<Rightarrow> ptr \<Rightarrow> 'g MABE \<Rightarrow> OrgPosition \<times> 'g MABE" where
  "InjectInstance PlaceInject pop org_ptr s =
     (let s1 = Trigger (OnInjectReady org_ptr pop) s;
          pos = PlaceInject s1 pop org_ptr
      in if IsValid s1 pos
         then (pos, AddOrgAt org_ptr pos (OrgPosition None 0) s1)
         else (pos, AddError InjectInstanceFailed (Delete org_ptr s1)))"

text \<open>
  \<open>emp::FindEval(v, pred)\<close> answers the index of the first element satisfying \<open>pred\<close>, or
  \<open>-1\<close>; \<open>GetPopID\<close> and \<open>GetModuleID\<close> return that \<open>int\<close>.  \<open>GetPopulation\<close> takes
  a \<open>size_t\<close>, so an \<open>int\<close> argument is converted modulo \<open>2^64\<close>.  Indexing a vector out
  of range is the fault \<open>VectorOutOfRange\<close>.
\<close>

fun FindEval_from :: "('a \<Rightarrow> bool) \<Rightarrow> 'a list \<Rightarrow> int \<Rightarrow> int" where
  "FindEval_from P [] i = - 1"
| "FindEval_from P (x # xs) i = (if P x then i else FindEval_from P xs (i + 1))"

definition FindEval :: "('a \<Rightarrow> bool) \<Rightarrow> 'a list \<Rightarrow> int" where
  "FindEval P xs = FindEval_from P xs 0"

definition GetPopID :: "'g MABE \<Rightarrow> string \<Rightarrow> int" where
  "GetPopID s name = FindEval (\<lambda>p. Population_name p = name) (pops s)"

definition GetModuleID :: "'g MABE \<Rightarrow> string \<Rightarrow> int" where
  "GetModuleID s name = FindEval (\<lambda>m. Module_name m = name) (modules s)"

definition size_t_of_int :: "int \<Rightarrow> nat" where
  "size_t_of_int i = nat (i mod 2 ^ 64)"

datatype fault = VectorOutOfRange nat

definition GetPopulation :: "'g MABE \<Rightarrow> nat \<Rightarrow> fault + nat" where
  "GetPopulation s i = (if i < length (pops s) then Inr i else Inl (VectorOutOfRange i))"

definition GetModule :: "'g MABE \<Rightarrow> string \<Rightarrow> fault + nat" where
  "GetModule s name =
     (let i = size_t_of_int (GetModuleID s name)
      in if i < length (modules s) then Inr i else Inl (VectorOutOfRange i))"

text \<open>\<open>Inject(Population &, const std::string &, size_t)\<close>.\<close>

definition Inject_type_body ::
  "'g PlaceInject \<Rightarrow> nat \<Rightarrow> 'g ModuleBase \<Rightarrow> nat \<Rightarrow> Collection \<times> 'g MABE \<Rightarrow> Collection \<times> 'g MABE" where
  "Inject_type_body PlaceInject pop org_manager i cs =
     (let (placement_set, s) = cs;
          (g, r) = Make org_manager (random_gen s);
          (org_ptr, s1) = NewPtr (Org g) (s\<lparr>random_gen := r\<rparr>);
          (pos, s2) = InjectInstance PlaceInject pop org_ptr s1
      in (insert pos placement_set, s2))"

definition Inject_type ::
  "'g PlaceInject \<Rightarrow> nat \<Rightarrow> string \<Rightarrow> nat \<Rightarrow> 'g MABE \<Rightarrow> fault + Collection \<times> 'g MABE" where
  "Inject_type PlaceInject pop type_name copy_count s =
     (case GetModule s type_name of
        Inl f \<Rightarrow> Inl f
      | Inr m \<Rightarrow>
          Inr (fold (Inject_type_body PlaceInject pop (modules s ! m)) [0..<copy_count] ({}, s)))"

definition InjectByName ::
  "'g PlaceInject \<Rightarrow> string \<Rightarrow> string \<Rightarrow> nat \<Rightarrow> 'g MABE \<Rightarrow> (fault + Collection) \<times> 'g MABE" where
  "InjectByName PlaceInject pop_name type_name copy_count s =
     (let pop_id = GetPopID s pop_name;
          s1 = (if pop_id = - 1
                then AddError (InvalidPopName type_name pop_name copy_count) s else s)
      in case GetPopulation s1 (size_t_of_int pop_id) of
           Inl f \<Rightarrow> (Inl f, s1)
         | Inr pop \<Rightarrow>
             (case Inject_type PlaceInject pop type_name copy_count s1 of
                Inl f \<Rightarrow> (Inl f, s1)
              | Inr (placed, s2) \<Rightarrow> (Inr placed, s2)))"

subsection \<open>Birth (MABE.hpp)\<close>

text \<open>
  Modelled from the spec: \<open>Organism::MakeOffspringOrganism\<close>, which Organism.h does not
  declare.  Spec 4.3: the offspring is constructed "via mutated inheritance"; the
  mutation operator itself is a concrete organism's business and is the parameter
  \<open>mutate\<close>, which consumes randomness.
\<close>

definition MakeOffspringOrganism ::
  "('g \<Rightarrow> Random \<Rightarrow> 'g \<times> Random) \<Rightarrow> ptr \<Rightarrow> 'g MABE \<Rightarrow> ptr \<times> 'g MABE" where
  "MakeOffspringOrganism mutate org s =
     (case heap s org of
        EmptyOrganism \<Rightarrow> NewPtr EmptyOrganism s
      | Org g \<Rightarrow> (let (g', r) = mutate g (random_gen s) in NewPtr (Org g') (s\<lparr>random_gen := r\<rparr>)))"

text \<open>
  A population's placement strategy for births (\<open>PlaceBirth\<close>) is a \<open>std::function\<close>
  installed from outside and run by the controller: it answers a position and may change
  the state on the way (the strategy \<open>AddPopulation\<close> installs appends a slot to the
  population with \<open>PushEmpty\<close> and answers it).  It is a parameter here, from the state
  in which it is asked, the population, the offspring and the parent's position to its
  answer and the state it leaves.
\<close>

type_synonym 'g PlaceBirth = "'g MABE \<Rightarrow> nat \<Rightarrow> ptr \<Rightarrow> OrgPosition \<Rightarrow> OrgPosition \<times> 'g MABE"

text \<open>
  The parent is a \<open>const Organism &\<close>, read again for every offspring.  When an earlier
  offspring was placed on the parent's slot, \<open>AddOrgAt\<close> has released the parent and the
  reference dangles; constructing the next offspring from it is undefined in the source
  and is the fault \<open>DanglingParent\<close> here.  \<open>emp_assert(org.IsEmpty() == false)\<close> is a
  debug-build check.
\<close>

datatype birth_fault = DanglingParent ptr


text \<open>\<open>DoBirth(const Organism &, OrgPosition, Population &, size_t, bool)\<close>: one pass of
  the loop body, then the whole function.\<close>

definition DoBirth_body ::
  "'g PlaceBirth \<Rightarrow> ('g \<Rightarrow> Random \<Rightarrow> 'g \<times> Random) \<Rightarrow> ptr \<Rightarrow> OrgPosition \<Rightarrow> nat \<Rightarrow> bool \<Rightarrow>
   nat \<Rightarrow> Collection \<times> 'g MABE \<Rightarrow> birth_fault + Collection \<times> 'g MABE" where
  "DoBirth_body PlaceBirth mutate org ppos target_pop do_mutations i cs =
     (let (birth_list, s) = cs
      in if org \<notin> live s then Inl (DanglingParent org)
         else
           let (new_org, s1) = (if do_mutations then MakeOffspringOrganism mutate org s
                                else CloneOrganism org s);
               s2 = Trigger (OnOffspringReady new_org ppos target_pop) s1;
               (pos, s3) = PlaceBirth s2 target_pop new_org ppos
           in if IsValid s3 pos
              then Inr (insert pos birth_list, AddOrgAt new_org pos ppos s3)
              else Inr (birth_list, Delete new_org s3))"


text \<open>\<open>DoBirth(const Organism &, OrgPosition, OrgPosition, bool)\<close>: the target is given.\<close>

definition DoBirth_at ::
  "('g \<Rightarrow> Random \<Rightarrow> 'g \<times> Random) \<Rightarrow> ptr \<Rightarrow> OrgPosition \<Rightarrow> OrgPosition \<Rightarrow> bool \<Rightarrow>
   'g MABE \<Rightarrow> birth_fault + Collection \<times> 'g MABE" where
  "DoBirth_at mutate org ppos target_pos do_mutations s =
     (let s0 = Trigger (BeforeRepro ppos) s
      in if org \<notin> live s0 then Inl (DanglingParent org)
         else
           let (new_org, s1) = (if do_mutations then MakeOffspringOrganism mutate org s0
                                else CloneOrganism org s0);
               s2 = Trigger (OnOffspringReady new_org ppos (the (PopPtr target_pos))) s1
           in Inr ({target_pos}, AddOrgAt new_org target_pos ppos s2))"

subsection \<open>Random positions (MABE.hpp)\<close>

definition GetRandomPos :: "nat \<Rightarrow> 'g MABE \<Rightarrow> OrgPosition \<times> 'g MABE" where
  "GetRandomPos pop s =
     (let (k, r) = GetUInt (random_gen s) (GetSize s pop)
      in (IteratorAt pop k, s\<lparr>random_gen := r\<rparr>))"

text \<open>
  \<open>GetRandomOrgPos\<close>: the \<open>while (pos.IsEmpty())\<close> loop may run forever, so the loop is a
  partial function and \<open>None\<close> means that it does not return.  The two \<open>emp_assert\<close>s
  (\<open>pop.GetSize() > 0\<close>, \<open>pop.GetNumOrgs() > 0\<close>) are debug-build checks, compiled out
  otherwise; they are hypotheses where a theorem needs them.
\<close>

partial_function (option) GetRandomOrgPos_loop ::
  "nat \<Rightarrow> OrgPosition \<times> 'g MABE \<Rightarrow> (OrgPosition \<times> 'g MABE) option" where
  "GetRandomOrgPos_loop pop ps =
     (if pos_IsEmpty (snd ps) (fst ps)
      then GetRandomOrgPos_loop pop (GetRandomPos pop (snd ps))
      else Some ps)"

definition GetRandomOrgPos :: "nat \<Rightarrow> 'g MABE \<Rightarrow> (OrgPosition \<times> 'g MABE) option" where
  "GetRandomOrgPos pop s = GetRandomOrgPos_loop pop (GetRandomPos pop s)"

subsection \<open>Teardown: \<open>MABE::~MABE\<close>\<close>

definition Delete_module :: "nat \<Rightarrow> 'g MABE \<Rightarrow> 'g MABE" where
  "Delete_module m s = s\<lparr>trace := trace s @ [DeleteModule m]\<rparr>"

definition Delete_population :: "nat \<Rightarrow> 'g MABE \<Rightarrow> 'g MABE" where
  "Delete_population pop s = s\<lparr>trace := trace s @ [DeletePopulation pop]\<rparr>"

definition destructor :: "'g MABE \<Rightarrow> 'g MABE" where
  "destructor s =
     (let s1 = Trigger BeforeExit s;
          s2 = fold Delete_module [0..<length (modules s1)] s1;
          s3 = fold (\<lambda>pop st. Delete_population pop (ClearPop pop st)) [0..<length (pops s2)] s2
      in if empty_org s3 \<noteq> 0 then Delete (empty_org s3) s3 else s3)"

section \<open>The signal bus: \<open>MABE::UpdateSignals\<close> (MABE.hpp)\<close>

text \<open>
  \<open>sig_ptrs\<close> holds, per signal id, the vector of modules linked to that signal; a module
  pointer is the module's index in \<open>modules\<close>.  The inner loop visits every signal id for
  one module, the outer loop every module in registration order.
\<close>

definition UpdateSignals_module :: "nat \<Rightarrow> (nat \<Rightarrow> bool) \<Rightarrow> nat list list \<Rightarrow> nat list list" where
  "UpdateSignals_module mod_ptr hs sp =
     fold (\<lambda>sig_id sp. if hs sig_id then sp[sig_id := sp ! sig_id @ [mod_ptr]] else sp)
       [0..<length sp] sp"

definition UpdateSignals :: "'g MABE \<Rightarrow> 'g MABE" where
  "UpdateSignals s =
     (let cleared = map (\<lambda>modv. []) (sig_ptrs s);
          linked = fold (\<lambda>m. UpdateSignals_module m (has_signal (modules s ! m)))
                     [0..<length (modules s)] cleared
      in s\<lparr>sig_ptrs := linked, rescan_signals := False\<rparr>)"

section \<open>Trait access modes (Module.hpp)\<close>

text \<open>
  Modelled from the spec: \<open>enum TraitInfo::Access\<close>, declared in TraitInfo.hpp, the header
  Module.hpp includes and which is missing (TraitInfo.h is an earlier header that no file
  includes).  Spec, section 3: "Access modes: PRIVATE (sole claimant, no others), OWNED
  (one read/write owner, others read-only), SHARED (multiple read/write claimants),
  REQUIRED (read-only, must be produced elsewhere), GENERATED (read/write, must have
  at least one consumer), OPTIONAL (read-only if present, not required)."  \<open>UNKNOWN\<close> is
  the mode a trait has before one is set (\<open>Access access = Access::UNKNOWN\<close> in
  \<open>Module::BaseTrait\<close>).
\<close>

datatype Access = UNKNOWN | PRIVATE | OWNED | GENERATED | SHARED | REQUIRED | OPTIONAL

text \<open>
  \<open>Module::AddTrait\<close> passes the module and its arguments on to the trait manager; what
  is submitted is recorded as the claim.  \<open>'v\<close> is the trait's type \<open>T\<close>, and \<open>T0\<close>
  stands for the value-initialised \<open>T()\<close> that \<open>AddOptionalTrait\<close> and
  \<open>AddRequiredTrait\<close> pass as default.  \<open>emp_assert(name != "")\<close> is a debug-build check.
\<close>

record 'v trait_claim =
  claim_module :: string
  claim_access :: Access
  claim_name :: string
  claim_desc :: string
  claim_default :: 'v
  claim_count :: nat

definition AddTrait :: "string \<Rightarrow> Access \<Rightarrow> string \<Rightarrow> string \<Rightarrow> 'v \<Rightarrow> nat \<Rightarrow> 'v trait_claim" where
  "AddTrait this access name desc default_val count =
     \<lparr>claim_module = this, claim_access = access, claim_name = name, claim_desc = desc,
      claim_default = default_val, claim_count = count\<rparr>"

definition AddPrivateTrait :: "string \<Rightarrow> string \<Rightarrow> string \<Rightarrow> 'v \<Rightarrow> nat \<Rightarrow> 'v trait_claim" where
  "AddPrivateTrait this name desc default_val count =
     AddTrait this PRIVATE name desc default_val count"

definition AddOwnedTrait :: "string \<Rightarrow> string \<Rightarrow> string \<Rightarrow> 'v \<Rightarrow> nat \<Rightarrow> 'v trait_claim" where
  "AddOwnedTrait this name desc default_val count =
     AddTrait this OWNED name desc default_val count"

definition AddGeneratedTrait :: "string \<Rightarrow> string \<Rightarrow> string \<Rightarrow> 'v \<Rightarrow> nat \<Rightarrow> 'v trait_claim" where
  "AddGeneratedTrait this name desc default_val count =
     AddTrait this GENERATED name desc default_val count"

definition AddSharedTrait :: "string \<Rightarrow> string \<Rightarrow> string \<Rightarrow> 'v \<Rightarrow> nat \<Rightarrow> 'v trait_claim" where
  "AddSharedTrait this name desc default_val count =
     AddTrait this SHARED name desc default_val count"

definition AddOptionalTrait :: "'v \<Rightarrow> string \<Rightarrow> string \<Rightarrow> string \<Rightarrow> nat \<Rightarrow> 'v trait_claim" where
  "AddOptionalTrait T0 this name desc count = AddTrait this OPTIONAL name desc T0 count"

definition AddRequiredTrait :: "'v \<Rightarrow> string \<Rightarrow> string \<Rightarrow> nat \<Rightarrow> 'v trait_claim" where
  "AddRequiredTrait T0 this name count = AddTrait this REQUIRED name '''' T0 count"

section \<open>Text preprocessing: \<open>MABE::Preprocess\<close> (MABE.hpp)\<close>

text \<open>
  \<open>std::string::erase(i, n)\<close> and \<open>std::string::replace(i, n, r)\<close>: both act on at
  most the characters that remain after index \<open>i\<close>.  \<open>emp::view_string_range(s, a, b)\<close>
  is the half-open range \<open>[a, b)\<close> of \<open>s\<close>.
\<close>

definition erase :: "string \<Rightarrow> nat \<Rightarrow> nat \<Rightarrow> string" where
  "erase s i n = take i s @ drop (i + n) s"

definition replace :: "string \<Rightarrow> nat \<Rightarrow> nat \<Rightarrow> string \<Rightarrow> string" where
  "replace s i n r = take i s @ r @ drop (i + n) s"

definition view_string_range :: "string \<Rightarrow> nat \<Rightarrow> nat \<Rightarrow> string" where
  "view_string_range s a b = take (b - a) (drop a s)"

text \<open>
  The \<open>for\<close> loop of \<open>Preprocess\<close>, one iteration per unfolding; \<open>i\<close> is the loop
  index on entry to the loop test.  Two collaborators live outside the repository's core
  and are parameters: \<open>fpm out p\<close> stands for
  \<open>emp::find_paren_match(out, p, '{', '}', false)\<close> and \<open>exec\<close> for \<open>config.Execute\<close>.
  The source reads \<open>fpm\<close>'s answer \<open>i+1\<close> (its own start position) as "no end brace
  found", and a match lies after that position, so \<open>end_pos - i + 1\<close> does not wrap.
  Indices are \<open>size_t\<close>; no value here comes near its range, so they are \<open>nat\<close>.
\<close>

function Preprocess_loop ::
  "(string \<Rightarrow> nat \<Rightarrow> nat) \<Rightarrow> (string \<Rightarrow> string) \<Rightarrow> string \<Rightarrow> nat \<Rightarrow> string" where
  "Preprocess_loop fpm exec out i =
     (if \<not> i < length out then out
      else if out ! i \<noteq> CHR ''$'' then Preprocess_loop fpm exec out (i + 1)
      else if length out \<le> i + 2 then out
      else if out ! (i + 1) = CHR ''$'' then Preprocess_loop fpm exec (erase out i 1) (i + 1)
      else if out ! (i + 1) \<noteq> CHR ''{'' then Preprocess_loop fpm exec out (i + 1)
      else if fpm out (i + 1) = i + 1 then out
      else Preprocess_loop fpm exec
             (replace out i (fpm out (i + 1) - i + 1)
                (exec (view_string_range out (i + 2) (fpm out (i + 1)))))
             (i + length (exec (view_string_range out (i + 2) (fpm out (i + 1)))) + 1))"
  by pat_completeness auto
termination
  by (relation "measure (\<lambda>(fpm, exec, out, i). length out - i)")
     (auto simp: erase_def replace_def)

declare Preprocess_loop.simps [simp del]

definition Preprocess :: "(string \<Rightarrow> nat \<Rightarrow> nat) \<Rightarrow> (string \<Rightarrow> string) \<Rightarrow> string \<Rightarrow> string" where
  "Preprocess fpm exec in_string = Preprocess_loop fpm exec in_string 0"


section \<open>A small world to run the functions on\<close>

text \<open>
  Three modules (the built-in manager of the placeholder, one organism manager and a
  logger), two populations, and three organisms carrying the numbers 10, 20 and 30.  The placeholder
  lives at address 1.  Population 0 has eight slots and is occupied at indices 2 and 5;
  population 1 has two slots and is occupied at index 0.
\<close>

definition world :: "nat MABE" where
  "world =
     \<lparr>modules =
        [\<lparr>Module_name = ''EmptyOrg'', has_signal = (\<lambda>sig_id. False), Make = (\<lambda>r. (0, r))\<rparr>,
         \<lparr>Module_name = ''Counter'', has_signal = (\<lambda>sig_id. sig_id = 1 \<or> sig_id = 3),
          Make = (\<lambda>r. (draws r (used r), r\<lparr>used := Suc (used r)\<rparr>))\<rparr>,
         \<lparr>Module_name = ''Logger'', has_signal = (\<lambda>sig_id. sig_id = 3),
          Make = (\<lambda>r. (0, r))\<rparr>],
      sig_ptrs = [[2], [], [0, 1], [], []],
      rescan_signals = True,
      pops =
        [\<lparr>Population_name = ''main_pop'', orgs = [1, 1, 2, 1, 1, 3, 1, 1]\<rparr>,
         \<lparr>Population_name = ''next_pop'', orgs = [4, 1]\<rparr>],
      empty_org = 1,
      heap = (\<lambda>p. if p = 2 then Org 10 else if p = 3 then Org 20
                  else if p = 4 then Org 30 else EmptyOrganism),
      live = {1, 2, 3, 4},
      next_ptr = 5,
      random_gen = \<lparr>draws = (\<lambda>k. k), used = 0\<rparr>,
      trace = [],
      errors = []\<rparr>"

text \<open>Placement strategies to run with, and a mutation operator that adds a random bit.
  The strategies: one that rejects every request; one that proposes the first empty slot of
  the population; one that appends an empty slot to the population and answers it, as the
  strategy installed by \<open>AddPopulation\<close> does; and one that answers the parent's own
  position.\<close>

definition reject_inject :: "nat PlaceInject" where
  "reject_inject s pop org = OrgPosition None 0"







text \<open>A generator stuck on the value 1, and the same world drawing from it.\<close>

definition stuck_world :: "nat MABE" where
  "stuck_world = world\<lparr>random_gen := \<lparr>draws = (\<lambda>k. 1), used = 0\<rparr>\<rparr>"

text \<open>The same world with a population of three slots, none of them occupied.\<close>

definition barren_world :: "nat MABE" where
  "barren_world = world\<lparr>pops := [\<lparr>Population_name = ''main_pop'', orgs = [1, 1, 1]\<rparr>]\<rparr>"

text \<open>The same world with one population that has no slots, as \<open>AddPopulation\<close> makes it
  when no size is given.\<close>

definition empty_world :: "nat MABE" where
  "empty_world = world\<lparr>pops := [\<lparr>Population_name = ''main_pop'', orgs = []\<rparr>]\<rparr>"

section \<open>What the primitive operations change\<close>

lemma Trigger_fields [simp]:
  "pops (Trigger ev s) = pops s" "empty_org (Trigger ev s) = empty_org s"
  "heap (Trigger ev s) = heap s" "live (Trigger ev s) = live s"
  "next_ptr (Trigger ev s) = next_ptr s" "errors (Trigger ev s) = errors s"
  "random_gen (Trigger ev s) = random_gen s" "modules (Trigger ev s) = modules s"
  "trace (Trigger ev s) = trace s @ [ev]"
  by (simp_all add: Trigger_def)

lemma Delete_fields [simp]:
  "pops (Delete p s) = pops s" "empty_org (Delete p s) = empty_org s"
  "heap (Delete p s) = heap s" "live (Delete p s) = live s - {p}"
  "next_ptr (Delete p s) = next_ptr s" "errors (Delete p s) = errors s"
  "random_gen (Delete p s) = random_gen s" "modules (Delete p s) = modules s"
  "trace (Delete p s) = trace s @ [DeleteOrganism p]"
  by (simp_all add: Delete_def)

lemma NewPtr_fields [simp]:
  "fst (NewPtr v s) = next_ptr s"
  "pops (snd (NewPtr v s)) = pops s" "empty_org (snd (NewPtr v s)) = empty_org s"
  "heap (snd (NewPtr v s)) = (heap s)(next_ptr s := v)"
  "live (snd (NewPtr v s)) = insert (next_ptr s) (live s)"
  "next_ptr (snd (NewPtr v s)) = Suc (next_ptr s)" "errors (snd (NewPtr v s)) = errors s"
  "random_gen (snd (NewPtr v s)) = random_gen s" "modules (snd (NewPtr v s)) = modules s"
  "trace (snd (NewPtr v s)) = trace s"
  by (simp_all add: NewPtr_def)

lemma SetOrg_fields [simp]:
  "empty_org (SetOrg pos p s) = empty_org s"
  "heap (SetOrg pos p s) = heap s" "live (SetOrg pos p s) = live s"
  "next_ptr (SetOrg pos p s) = next_ptr s" "errors (SetOrg pos p s) = errors s"
  "random_gen (SetOrg pos p s) = random_gen s" "modules (SetOrg pos p s) = modules s"
  "trace (SetOrg pos p s) = trace s"
  "length (pops (SetOrg pos p s)) = length (pops s)"
  by (simp_all add: SetOrg_def split: option.splits)

lemma GetSize_pops: "pops s' = pops s \<Longrightarrow> GetSize s' = GetSize s"
  by (simp add: GetSize_def fun_eq_iff)
lemma IsValid_pops: "pops s' = pops s \<Longrightarrow> IsValid s' = IsValid s"
  by (simp add: IsValid_def GetSize_def fun_eq_iff split: option.splits)
lemma OrgAt_pops: "pops s' = pops s \<Longrightarrow> OrgAt s' = OrgAt s"
  by (simp add: OrgAt_def IsValid_def GetSize_def fun_eq_iff split: option.splits)

lemma pops_simps [simp]:
  "GetSize (Trigger ev s) = GetSize s" "IsValid (Trigger ev s) = IsValid s" "OrgAt (Trigger ev s) = OrgAt s"
  "GetSize (Delete p s) = GetSize s" "IsValid (Delete p s) = IsValid s" "OrgAt (Delete p s) = OrgAt s"
  "GetSize (snd (NewPtr v s)) = GetSize s" "IsValid (snd (NewPtr v s)) = IsValid s"
  "OrgAt (snd (NewPtr v s)) = OrgAt s"
  by (rule GetSize_pops IsValid_pops OrgAt_pops, simp)+

lemma GetSize_SetOrg [simp]: "GetSize (SetOrg pos p s) pop = GetSize s pop"
  by (cases pos) (auto simp: IsValid_def SetOrg_def GetSize_def nth_list_update split: option.splits)

lemma IsValid_SetOrg [simp]: "IsValid (SetOrg pos p s) pos' = IsValid s pos'"
  by (simp add: IsValid_def split: option.splits)

lemma OrgAt_SetOrg:
  "OrgAt (SetOrg pos p s) pos' = (if pos' = pos \<and> IsValid s pos then p else OrgAt s pos')"
  by (cases pos; cases pos')
     (auto simp: OrgAt_def IsValid_def SetOrg_def GetSize_def nth_list_update split: option.splits)

lemma ClearOrgAt_fields [simp]:
  "empty_org (ClearOrgAt pos s) = empty_org s"
  "heap (ClearOrgAt pos s) = heap s"
  "next_ptr (ClearOrgAt pos s) = next_ptr s" "errors (ClearOrgAt pos s) = errors s"
  "random_gen (ClearOrgAt pos s) = random_gen s" "modules (ClearOrgAt pos s) = modules s"
  "length (pops (ClearOrgAt pos s)) = length (pops s)"
  "GetSize (ClearOrgAt pos s) pop = GetSize s pop"
  "IsValid (ClearOrgAt pos s) pos' = IsValid s pos'"
  by (simp_all add: ClearOrgAt_def Let_def)

lemma OrgAt_ClearOrgAt:
  "OrgAt (ClearOrgAt pos s) pos' = (if pos' = pos \<and> IsValid s pos then empty_org s else OrgAt s pos')"
  by (auto simp: ClearOrgAt_def Let_def OrgAt_SetOrg IsOccupied_def)

lemma live_ClearOrgAt: "live (ClearOrgAt pos s) = (if IsOccupied s pos then live s - {OrgAt s pos} else live s)"
  by (simp add: ClearOrgAt_def Let_def)

lemma AddOrgAt_fields [simp]:
  "empty_org (AddOrgAt p pos ppos s) = empty_org s"
  "heap (AddOrgAt p pos ppos s) = heap s"
  "next_ptr (AddOrgAt p pos ppos s) = next_ptr s" "errors (AddOrgAt p pos ppos s) = errors s"
  "random_gen (AddOrgAt p pos ppos s) = random_gen s" "modules (AddOrgAt p pos ppos s) = modules s"
  "length (pops (AddOrgAt p pos ppos s)) = length (pops s)"
  "GetSize (AddOrgAt p pos ppos s) pop = GetSize s pop"
  "IsValid (AddOrgAt p pos ppos s) pos' = IsValid s pos'"
  by (simp_all add: AddOrgAt_def Let_def)

lemma OrgAt_AddOrgAt:
  "OrgAt (AddOrgAt p pos ppos s) pos' = (if pos' = pos \<and> IsValid s pos then p else OrgAt s pos')"
  by (simp add: AddOrgAt_def Let_def OrgAt_SetOrg)

lemma live_AddOrgAt:
  "live (AddOrgAt p pos ppos s) = (if OrgAt s pos \<noteq> empty_org s then live s - {OrgAt s pos} else live s)"
  by (simp add: AddOrgAt_def Let_def)


lemma InjectAt_fields [simp]:
  "empty_org (InjectAt p pos s) = empty_org s"
  "heap (InjectAt p pos s) = (heap s)(next_ptr s := heap s p)"
  "next_ptr (InjectAt p pos s) = Suc (next_ptr s)" "errors (InjectAt p pos s) = errors s"
  "random_gen (InjectAt p pos s) = random_gen s" "modules (InjectAt p pos s) = modules s"
  "length (pops (InjectAt p pos s)) = length (pops s)"
  "GetSize (InjectAt p pos s) pop = GetSize s pop"
  "IsValid (InjectAt p pos s) pos' = IsValid s pos'"
  by (simp_all add: InjectAt_def CloneOrganism_def Let_def split_beta)

lemma OrgAt_InjectAt:
  "OrgAt (InjectAt p pos s) pos' = (if pos' = pos \<and> IsValid s pos then next_ptr s else OrgAt s pos')"
  by (simp add: InjectAt_def CloneOrganism_def Let_def split_beta OrgAt_AddOrgAt)

lemma live_InjectAt:
  "live (InjectAt p pos s) =
     (if OrgAt s pos \<noteq> empty_org s then insert (next_ptr s) (live s) - {OrgAt s pos}
      else insert (next_ptr s) (live s))"
  by (simp add: InjectAt_def CloneOrganism_def Let_def split_beta live_AddOrgAt)


lemma IteratorAt_simps [simp]:
  "PopPtr (IteratorAt pop k) = Some pop" "Pos (IteratorAt pop k) = k"
  "(pos = IteratorAt pop k) = (PopPtr pos = Some pop \<and> Pos pos = k)"
  "(IteratorAt pop k = pos) = (PopPtr pos = Some pop \<and> Pos pos = k)"
  by (cases pos; auto simp: IteratorAt_def)+

lemma ResizePop_fields [simp]:
  "empty_org (ResizePop pop n s) = empty_org s"
  "heap (ResizePop pop n s) = heap s" "live (ResizePop pop n s) = live s"
  "next_ptr (ResizePop pop n s) = next_ptr s" "errors (ResizePop pop n s) = errors s"
  "random_gen (ResizePop pop n s) = random_gen s" "modules (ResizePop pop n s) = modules s"
  "length (pops (ResizePop pop n s)) = length (pops s)"
  "trace (ResizePop pop n s) = trace s @ [BeforePopResize pop n, OnPopResize pop (GetSize s pop)]"
  by (simp_all add: ResizePop_def Let_def Trigger_def GetSize_def)

lemma GetSize_ResizePop:
  "GetSize (ResizePop pop n s) p = (if p = pop \<and> pop < length (pops s) then n else GetSize s p)"
  by (cases "pop < length (pops s)")
     (auto simp: ResizePop_def Let_def Trigger_def GetSize_def nth_list_update list_update_beyond)

lemma OrgAt_ResizePop_other:
  "PopPtr pos \<noteq> Some pop \<Longrightarrow> OrgAt (ResizePop pop n s) pos = OrgAt s pos"
  by (cases pos)
     (auto simp: OrgAt_def IsValid_def GetSize_ResizePop split: option.splits,
      auto simp: ResizePop_def Let_def Trigger_def nth_list_update)

lemma OrgAt_ResizePop_same:
  "pop < length (pops s) \<Longrightarrow> k < n \<Longrightarrow>
   OrgAt (ResizePop pop n s) (IteratorAt pop k) =
     (if k < GetSize s pop then OrgAt s (IteratorAt pop k) else empty_org s)"
  by (auto simp: OrgAt_def IsValid_def GetSize_ResizePop)
     (auto simp: ResizePop_def Let_def Trigger_def GetSize_def nth_append)

lemma ClearPop_upto_fields:
  "empty_org (fold (\<lambda>k. ClearOrgAt (IteratorAt pop k)) [0..<j] s) = empty_org s
 \<and> heap (fold (\<lambda>k. ClearOrgAt (IteratorAt pop k)) [0..<j] s) = heap s
 \<and> next_ptr (fold (\<lambda>k. ClearOrgAt (IteratorAt pop k)) [0..<j] s) = next_ptr s
 \<and> errors (fold (\<lambda>k. ClearOrgAt (IteratorAt pop k)) [0..<j] s) = errors s
 \<and> modules (fold (\<lambda>k. ClearOrgAt (IteratorAt pop k)) [0..<j] s) = modules s
 \<and> length (pops (fold (\<lambda>k. ClearOrgAt (IteratorAt pop k)) [0..<j] s)) = length (pops s)
 \<and> GetSize (fold (\<lambda>k. ClearOrgAt (IteratorAt pop k)) [0..<j] s) = GetSize s
 \<and> IsValid (fold (\<lambda>k. ClearOrgAt (IteratorAt pop k)) [0..<j] s) = IsValid s"
  by (induction j) (simp_all add: fun_eq_iff)

lemma OrgAt_ClearPop_upto:
  "OrgAt (fold (\<lambda>k. ClearOrgAt (IteratorAt pop k)) [0..<j] s) pos =
     (if PopPtr pos = Some pop \<and> Pos pos < j \<and> IsValid s pos then empty_org s else OrgAt s pos)"
proof (induction j)
  case 0
  show ?case by simp
next
  case (Suc j)
  show ?case
    by (auto simp: OrgAt_ClearOrgAt Suc ClearPop_upto_fields less_Suc_eq IsValid_def)
qed

lemma ClearPop_fields [simp]:
  "empty_org (ClearPop pop s) = empty_org s" "heap (ClearPop pop s) = heap s"
  "next_ptr (ClearPop pop s) = next_ptr s" "errors (ClearPop pop s) = errors s"
  "modules (ClearPop pop s) = modules s"
  "length (pops (ClearPop pop s)) = length (pops s)"
  "GetSize (ClearPop pop s) = GetSize s" "IsValid (ClearPop pop s) = IsValid s"
  by (simp_all add: ClearPop_def ClearPop_upto_fields)

lemma OrgAt_ClearPop:
  "OrgAt (ClearPop pop s) pos =
     (if PopPtr pos = Some pop \<and> IsValid s pos then empty_org s else OrgAt s pos)"
  by (auto simp: ClearPop_def OrgAt_ClearPop_upto IsValid_def)



section \<open>Copying a population\<close>

lemma CopyPop_body_skip:
  "OrgAt s (IteratorAt f k) = empty_org s \<Longrightarrow> CopyPop_body f t k s = s"
  by (simp add: CopyPop_body_def)

lemma CopyPop_body_inject:
  "OrgAt s (IteratorAt f k) \<noteq> empty_org s \<Longrightarrow>
   CopyPop_body f t k s = InjectAt (OrgAt s (IteratorAt f k)) (IteratorAt t k) s"
  by (simp add: CopyPop_body_def)

lemma CopyPop_loop:
  fixes s1 :: "'g MABE" and f t n :: nat
  assumes t: "t < length (pops s1)" and sz: "GetSize s1 t = n"
    and cleared: "\<forall>k<n. OrgAt s1 (IteratorAt t k) = empty_org s1"
    and e_old: "empty_org s1 < next_ptr s1"
    and src_old: "\<forall>k. OrgAt s1 (IteratorAt f k) < next_ptr s1"
    and j: "j \<le> n"
  shows "empty_org (fold (CopyPop_body f t) [0..<j] s1) = empty_org s1
       \<and> IsValid (fold (CopyPop_body f t) [0..<j] s1) = IsValid s1
       \<and> GetSize (fold (CopyPop_body f t) [0..<j] s1) = GetSize s1
       \<and> length (pops (fold (CopyPop_body f t) [0..<j] s1)) = length (pops s1)
       \<and> next_ptr s1 \<le> next_ptr (fold (CopyPop_body f t) [0..<j] s1)
       \<and> (\<forall>p<next_ptr s1. heap (fold (CopyPop_body f t) [0..<j] s1) p = heap s1 p)
       \<and> (\<forall>pos. (PopPtr pos = Some t \<longrightarrow> j \<le> Pos pos) \<longrightarrow>
              OrgAt (fold (CopyPop_body f t) [0..<j] s1) pos = OrgAt s1 pos)
       \<and> (\<forall>k<j. OrgAt s1 (IteratorAt f k) = empty_org s1 \<longrightarrow>
              OrgAt (fold (CopyPop_body f t) [0..<j] s1) (IteratorAt t k) = empty_org s1)
       \<and> (\<forall>k<j. OrgAt s1 (IteratorAt f k) \<noteq> empty_org s1 \<longrightarrow>
              f \<noteq> t
            \<and> next_ptr s1 \<le> OrgAt (fold (CopyPop_body f t) [0..<j] s1) (IteratorAt t k)
            \<and> OrgAt (fold (CopyPop_body f t) [0..<j] s1) (IteratorAt t k)
                < next_ptr (fold (CopyPop_body f t) [0..<j] s1)
            \<and> heap (fold (CopyPop_body f t) [0..<j] s1)
                  (OrgAt (fold (CopyPop_body f t) [0..<j] s1) (IteratorAt t k))
                = heap s1 (OrgAt s1 (IteratorAt f k))
            \<and> OrgAt (fold (CopyPop_body f t) [0..<j] s1) (IteratorAt t k)
                \<in> live (fold (CopyPop_body f t) [0..<j] s1)
            \<and> (\<forall>k'<j. k' \<noteq> k \<longrightarrow>
                  OrgAt (fold (CopyPop_body f t) [0..<j] s1) (IteratorAt t k')
                  \<noteq> OrgAt (fold (CopyPop_body f t) [0..<j] s1) (IteratorAt t k)))"
  using j
proof (induction j)
  case 0
  show ?case by simp
next
  case (Suc j)
  define sj where "sj = fold (CopyPop_body f t) [0..<j] s1"
  have IH: "empty_org sj = empty_org s1" "IsValid sj = IsValid s1" "GetSize sj = GetSize s1"
    "length (pops sj) = length (pops s1)" "next_ptr s1 \<le> next_ptr sj"
    "\<And>p. p < next_ptr s1 \<Longrightarrow> heap sj p = heap s1 p"
    "\<And>pos. (PopPtr pos = Some t \<longrightarrow> j \<le> Pos pos) \<Longrightarrow> OrgAt sj pos = OrgAt s1 pos"
    "\<And>k. k < j \<Longrightarrow> OrgAt s1 (IteratorAt f k) = empty_org s1 \<Longrightarrow>
          OrgAt sj (IteratorAt t k) = empty_org s1"
    "\<And>k. k < j \<Longrightarrow> OrgAt s1 (IteratorAt f k) \<noteq> empty_org s1 \<Longrightarrow>
          f \<noteq> t \<and> next_ptr s1 \<le> OrgAt sj (IteratorAt t k) \<and> OrgAt sj (IteratorAt t k) < next_ptr sj
          \<and> heap sj (OrgAt sj (IteratorAt t k)) = heap s1 (OrgAt s1 (IteratorAt f k))
          \<and> OrgAt sj (IteratorAt t k) \<in> live sj
          \<and> (\<forall>k'<j. k' \<noteq> k \<longrightarrow> OrgAt sj (IteratorAt t k') \<noteq> OrgAt sj (IteratorAt t k))"
    using Suc unfolding sj_def by simp_all
  have step: "fold (CopyPop_body f t) [0..<Suc j] s1 = CopyPop_body f t j sj"
    by (simp add: sj_def)
  have jn: "j < n" using Suc.prems by simp
  have validj: "IsValid sj (IteratorAt t j)"
    using jn t sz by (simp add: IH IsValid_def)
  show ?case
  proof (cases "OrgAt s1 (IteratorAt f j) = empty_org s1")
    case True
    have fj: "OrgAt sj (IteratorAt f j) = empty_org sj"
      using True IH(7)[of "IteratorAt f j"] IH(1) by simp
    have same: "CopyPop_body f t j sj = sj"
      by (rule CopyPop_body_skip[OF fj])
    have tj: "OrgAt sj (IteratorAt t j) = empty_org s1"
      using IH(7)[of "IteratorAt t j"] cleared jn by simp
    have c8: "\<forall>k<Suc j. OrgAt s1 (IteratorAt f k) = empty_org s1 \<longrightarrow>
                OrgAt sj (IteratorAt t k) = empty_org s1"
      using IH(8) tj by (auto simp: less_Suc_eq)
    have c9: "\<forall>k<Suc j. OrgAt s1 (IteratorAt f k) \<noteq> empty_org s1 \<longrightarrow>
          f \<noteq> t \<and> next_ptr s1 \<le> OrgAt sj (IteratorAt t k) \<and> OrgAt sj (IteratorAt t k) < next_ptr sj
          \<and> heap sj (OrgAt sj (IteratorAt t k)) = heap s1 (OrgAt s1 (IteratorAt f k))
          \<and> OrgAt sj (IteratorAt t k) \<in> live sj
          \<and> (\<forall>k'<Suc j. k' \<noteq> k \<longrightarrow> OrgAt sj (IteratorAt t k') \<noteq> OrgAt sj (IteratorAt t k))"
    proof (intro allI impI)
      fix k assume k: "k < Suc j" and occ: "OrgAt s1 (IteratorAt f k) \<noteq> empty_org s1"
      from k occ True have kj: "k < j" by (cases "k = j") auto
      note A = IH(9)[OF kj occ]
      have "OrgAt sj (IteratorAt t j) \<noteq> OrgAt sj (IteratorAt t k)"
        using A tj e_old by simp
      with A show "f \<noteq> t \<and> next_ptr s1 \<le> OrgAt sj (IteratorAt t k) \<and> OrgAt sj (IteratorAt t k) < next_ptr sj
          \<and> heap sj (OrgAt sj (IteratorAt t k)) = heap s1 (OrgAt s1 (IteratorAt f k))
          \<and> OrgAt sj (IteratorAt t k) \<in> live sj
          \<and> (\<forall>k'<Suc j. k' \<noteq> k \<longrightarrow> OrgAt sj (IteratorAt t k') \<noteq> OrgAt sj (IteratorAt t k))"
        by (simp add: less_Suc_eq)
    qed
    have c7: "\<forall>pos. (PopPtr pos = Some t \<longrightarrow> Suc j \<le> Pos pos) \<longrightarrow> OrgAt sj pos = OrgAt s1 pos"
      using IH(7) by auto
    show ?thesis
      unfolding step same using IH(1-6) c7 c8 c9 by simp
  next
    case False
    have ft: "f \<noteq> t" using False cleared jn by auto
    have fj: "OrgAt sj (IteratorAt f j) = OrgAt s1 (IteratorAt f j)"
      using IH(7)[of "IteratorAt f j"] ft by simp
    define src where "src = OrgAt s1 (IteratorAt f j)"
    define s' where "s' = InjectAt src (IteratorAt t j) sj"
    have inj: "CopyPop_body f t j sj = s'"
      using CopyPop_body_inject[of sj f j t] fj False IH(1) by (simp add: s'_def src_def)
    have tj: "OrgAt sj (IteratorAt t j) = empty_org sj"
      using IH(7)[of "IteratorAt t j"] cleared jn IH(1) by simp
    have srcj: "src < next_ptr s1" using src_old by (simp add: src_def)
    have OrgAt': "\<And>pos. OrgAt s' pos = (if pos = IteratorAt t j then next_ptr sj else OrgAt sj pos)"
      using validj by (simp add: s'_def OrgAt_InjectAt)
    have live': "live s' = insert (next_ptr sj) (live sj)"
      using tj by (simp add: s'_def live_InjectAt)
    have heap': "heap s' = (heap sj)(next_ptr sj := heap sj src)"
      by (simp add: s'_def)
    have next': "next_ptr s' = Suc (next_ptr sj)"
      by (simp add: s'_def)
    have c1: "empty_org s' = empty_org s1" "IsValid s' = IsValid s1" "GetSize s' = GetSize s1"
      "length (pops s') = length (pops s1)" "next_ptr s1 \<le> next_ptr s'"
      using IH(1-5) by (simp_all add: s'_def fun_eq_iff)
    have c6: "\<forall>p<next_ptr s1. heap s' p = heap s1 p"
      using IH(5,6) by (simp add: heap')
    have c7: "\<forall>pos. (PopPtr pos = Some t \<longrightarrow> Suc j \<le> Pos pos) \<longrightarrow> OrgAt s' pos = OrgAt s1 pos"
      using IH(7) by (auto simp: OrgAt')
    have c8: "\<forall>k<Suc j. OrgAt s1 (IteratorAt f k) = empty_org s1 \<longrightarrow>
                OrgAt s' (IteratorAt t k) = empty_org s1"
      using IH(8) False by (auto simp: OrgAt' less_Suc_eq)
    have c9: "\<forall>k<Suc j. OrgAt s1 (IteratorAt f k) \<noteq> empty_org s1 \<longrightarrow>
          f \<noteq> t \<and> next_ptr s1 \<le> OrgAt s' (IteratorAt t k) \<and> OrgAt s' (IteratorAt t k) < next_ptr s'
          \<and> heap s' (OrgAt s' (IteratorAt t k)) = heap s1 (OrgAt s1 (IteratorAt f k))
          \<and> OrgAt s' (IteratorAt t k) \<in> live s'
          \<and> (\<forall>k'<Suc j. k' \<noteq> k \<longrightarrow> OrgAt s' (IteratorAt t k') \<noteq> OrgAt s' (IteratorAt t k))"
    proof (intro allI impI)
      fix k assume k: "k < Suc j" and occ: "OrgAt s1 (IteratorAt f k) \<noteq> empty_org s1"
      show "f \<noteq> t \<and> next_ptr s1 \<le> OrgAt s' (IteratorAt t k) \<and> OrgAt s' (IteratorAt t k) < next_ptr s'
          \<and> heap s' (OrgAt s' (IteratorAt t k)) = heap s1 (OrgAt s1 (IteratorAt f k))
          \<and> OrgAt s' (IteratorAt t k) \<in> live s'
          \<and> (\<forall>k'<Suc j. k' \<noteq> k \<longrightarrow> OrgAt s' (IteratorAt t k') \<noteq> OrgAt s' (IteratorAt t k))"
      proof (cases "k = j")
        case True
        have lt: "\<And>k'. k' < j \<Longrightarrow> OrgAt sj (IteratorAt t k') < next_ptr sj"
        proof -
          fix k' assume k': "k' < j"
          show "OrgAt sj (IteratorAt t k') < next_ptr sj"
          proof (cases "OrgAt s1 (IteratorAt f k') = empty_org s1")
            case True
            then show ?thesis using IH(8)[OF k'] e_old IH(5) by simp
          next
            case False
            then show ?thesis using IH(9)[OF k'] by simp
          qed
        qed
        have "heap sj src = heap s1 src" using IH(6) srcj by simp
        moreover have ne: "\<And>k'. k' < j \<Longrightarrow> OrgAt sj (IteratorAt t k') \<noteq> next_ptr sj"
          using lt by (metis less_irrefl)
        have "\<forall>k'<Suc j. k' \<noteq> j \<longrightarrow> OrgAt s' (IteratorAt t k') \<noteq> next_ptr sj"
          using ne by (auto simp: OrgAt' less_Suc_eq)
        ultimately show ?thesis
          using True ft IH(5) by (simp add: OrgAt' heap' live' next' src_def)
      next
        case False
        with k have kj: "k < j" by simp
        note A = IH(9)[OF kj occ]
        have "heap s' (OrgAt sj (IteratorAt t k)) = heap sj (OrgAt sj (IteratorAt t k))"
          using A by (simp add: heap')
        moreover have "\<forall>k'<Suc j. k' \<noteq> k \<longrightarrow> OrgAt s' (IteratorAt t k') \<noteq> OrgAt sj (IteratorAt t k)"
          using A by (auto simp: OrgAt' less_Suc_eq)
        ultimately show ?thesis
          using False A by (simp add: OrgAt' live' next')
      qed
    qed
    show ?thesis
      unfolding step inj using c1 c6 c7 c8 c9 by simp
  qed
qed


lemma OrgAt_invalid: "\<not> IsValid s pos \<Longrightarrow> OrgAt s pos = 0"
  by (simp add: OrgAt_def split: option.splits)

lemma EmptyPop_facts:
  assumes t: "t < length (pops s)"
  shows "length (pops (EmptyPop t n s)) = length (pops s)"
    and "empty_org (EmptyPop t n s) = empty_org s"
    and "next_ptr (EmptyPop t n s) = next_ptr s"
    and "heap (EmptyPop t n s) = heap s"
    and "GetSize (EmptyPop t n s) p = (if p = t then n else GetSize s p)"
    and "k < n \<Longrightarrow> OrgAt (EmptyPop t n s) (IteratorAt t k) = empty_org s"
    and "PopPtr pos \<noteq> Some t \<Longrightarrow> OrgAt (EmptyPop t n s) pos = OrgAt s pos"
  using t
  by (auto simp: EmptyPop_def GetSize_ResizePop OrgAt_ResizePop_other OrgAt_ResizePop_same
        OrgAt_ClearPop IsValid_def)

text \<open>
  The state after \<open>CopyPop\<close>, for any two populations of a well-formed store (the sentinel
  and the source's organisms were allocated earlier, so their addresses are below
  \<open>next_ptr\<close>); source and destination are compared after the call.
\<close>

lemma CopyPop_post:
  assumes f: "from_pop < length (pops s)" and t: "to_pop < length (pops s)"
    and e: "empty_org s < next_ptr s"
    and old: "\<forall>k<GetSize s from_pop. OrgAt s (IteratorAt from_pop k) < next_ptr s"
  shows "let s' = CopyPop from_pop to_pop s in
      length (pops s') = length (pops s)
    \<and> empty_org s' = empty_org s
    \<and> (\<forall>p<next_ptr s. heap s' p = heap s p)
    \<and> GetSize s' to_pop = GetSize s from_pop
    \<and> GetSize s' from_pop = GetSize s from_pop
    \<and> (from_pop \<noteq> to_pop \<longrightarrow>
          (\<forall>k. OrgAt s' (IteratorAt from_pop k) = OrgAt s (IteratorAt from_pop k)))
    \<and> (\<forall>k<GetSize s from_pop.
          IsOccupied s' (IteratorAt to_pop k) = IsOccupied s' (IteratorAt from_pop k))
    \<and> (\<forall>k<GetSize s from_pop. IsOccupied s' (IteratorAt from_pop k) \<longrightarrow>
          heap s' (OrgAt s' (IteratorAt to_pop k)) = heap s' (OrgAt s' (IteratorAt from_pop k))
        \<and> OrgAt s' (IteratorAt to_pop k) \<in> live s'
        \<and> next_ptr s \<le> OrgAt s' (IteratorAt to_pop k)
        \<and> (\<forall>k'. OrgAt s' (IteratorAt from_pop k') \<noteq> OrgAt s' (IteratorAt to_pop k))
        \<and> (\<forall>k'<GetSize s from_pop. k' \<noteq> k \<longrightarrow>
              OrgAt s' (IteratorAt to_pop k') \<noteq> OrgAt s' (IteratorAt to_pop k))
        \<and> (\<forall>v. ((heap s')(OrgAt s' (IteratorAt to_pop k) := v)) (OrgAt s' (IteratorAt from_pop k))
               = heap s' (OrgAt s' (IteratorAt from_pop k))))"
proof -
  define n where "n = GetSize s from_pop"
  define s1 where "s1 = EmptyPop to_pop n s"
  define s' where "s' = fold (CopyPop_body from_pop to_pop) [0..<n] s1"
  note E = EmptyPop_facts[OF t, where n = n, folded s1_def]
  have sz1: "GetSize s1 to_pop = n" "GetSize s1 from_pop = n"
    by (simp_all add: E n_def)
  have run: "CopyPop from_pop to_pop s = s'"
    by (simp add: CopyPop_def Let_def s'_def s1_def[symmetric] n_def[symmetric] sz1)
  have t1: "to_pop < length (pops s1)" using t by (simp add: E)
  have cleared: "\<forall>k<n. OrgAt s1 (IteratorAt to_pop k) = empty_org s1"
    by (simp add: E)
  have e1: "empty_org s1 < next_ptr s1" using e by (simp add: E)
  have valid_f: "\<And>k. IsValid s1 (IteratorAt from_pop k) = (k < n)"
    using f by (simp add: IsValid_def sz1 E(1))
  have src1: "\<forall>k. OrgAt s1 (IteratorAt from_pop k) < next_ptr s1"
  proof
    fix k
    show "OrgAt s1 (IteratorAt from_pop k) < next_ptr s1"
    proof (cases "k < n")
      case False
      then show ?thesis using e1 OrgAt_invalid[of s1 "IteratorAt from_pop k"] by (simp add: valid_f)
    next
      case True
      show ?thesis
      proof (cases "from_pop = to_pop")
        case True
        then show ?thesis using cleared \<open>k < n\<close> e1 by simp
      next
        case False
        then show ?thesis using old True by (simp add: E n_def)
      qed
    qed
  qed
  note L = CopyPop_loop[OF t1 sz1(1) cleared e1 src1 order_refl, folded s'_def]
  note La = L[THEN conjunct1]
  note Lb = L[THEN conjunct2, THEN conjunct1]
  note Lc = L[THEN conjunct2, THEN conjunct2, THEN conjunct1]
  note Ld = L[THEN conjunct2, THEN conjunct2, THEN conjunct2, THEN conjunct1]
  note Le = L[THEN conjunct2, THEN conjunct2, THEN conjunct2, THEN conjunct2, THEN conjunct1]
  note Lf = L[THEN conjunct2, THEN conjunct2, THEN conjunct2, THEN conjunct2, THEN conjunct2,
              THEN conjunct1, rule_format]
  note Lg = L[THEN conjunct2, THEN conjunct2, THEN conjunct2, THEN conjunct2, THEN conjunct2,
              THEN conjunct2, THEN conjunct1]
  note Lh = L[THEN conjunct2, THEN conjunct2, THEN conjunct2, THEN conjunct2, THEN conjunct2,
              THEN conjunct2, THEN conjunct2, THEN conjunct1, rule_format]
  note Li = L[THEN conjunct2, THEN conjunct2, THEN conjunct2, THEN conjunct2, THEN conjunct2,
              THEN conjunct2, THEN conjunct2, THEN conjunct2, rule_format]
  have L1: "empty_org s' = empty_org s" "IsValid s' = IsValid s1" "GetSize s' = GetSize s1"
    "next_ptr s \<le> next_ptr s'"
    using La Lb Lc Le by (simp_all add: E(2,3))
  have L6: "\<And>p. p < next_ptr s \<Longrightarrow> heap s' p = heap s p"
    using Lf by (simp add: E(3,4))
  have L7: "\<And>pos. PopPtr pos \<noteq> Some to_pop \<Longrightarrow> OrgAt s' pos = OrgAt s pos"
    using Lg E(7) by auto
  have L8: "\<And>k. k < n \<Longrightarrow> OrgAt s1 (IteratorAt from_pop k) = empty_org s \<Longrightarrow>
              OrgAt s' (IteratorAt to_pop k) = empty_org s"
    using Lh by (simp add: E(2))
  have L9: "\<And>k. k < n \<Longrightarrow> OrgAt s1 (IteratorAt from_pop k) \<noteq> empty_org s \<Longrightarrow>
          from_pop \<noteq> to_pop \<and> next_ptr s \<le> OrgAt s' (IteratorAt to_pop k)
          \<and> heap s' (OrgAt s' (IteratorAt to_pop k)) = heap s (OrgAt s1 (IteratorAt from_pop k))
          \<and> OrgAt s' (IteratorAt to_pop k) \<in> live s'
          \<and> (\<forall>k'<n. k' \<noteq> k \<longrightarrow> OrgAt s' (IteratorAt to_pop k') \<noteq> OrgAt s' (IteratorAt to_pop k))"
  proof -
    fix k assume k: "k < n" and ne: "OrgAt s1 (IteratorAt from_pop k) \<noteq> empty_org s"
    from ne have ne1: "OrgAt s1 (IteratorAt from_pop k) \<noteq> empty_org s1" by (simp add: E(2))
    show "from_pop \<noteq> to_pop \<and> next_ptr s \<le> OrgAt s' (IteratorAt to_pop k)
          \<and> heap s' (OrgAt s' (IteratorAt to_pop k)) = heap s (OrgAt s1 (IteratorAt from_pop k))
          \<and> OrgAt s' (IteratorAt to_pop k) \<in> live s'
          \<and> (\<forall>k'<n. k' \<noteq> k \<longrightarrow> OrgAt s' (IteratorAt to_pop k') \<noteq> OrgAt s' (IteratorAt to_pop k))"
      using Li[OF k ne1] by (simp add: E(3,4))
  qed
  have srcs': "\<And>k. OrgAt s' (IteratorAt from_pop k) = OrgAt s1 (IteratorAt from_pop k)"
  proof -
    fix k
    show "OrgAt s' (IteratorAt from_pop k) = OrgAt s1 (IteratorAt from_pop k)"
    proof (cases "from_pop = to_pop")
      case False
      then show ?thesis using L7[of "IteratorAt from_pop k"] by (simp add: E)
    next
      case True
      show ?thesis
      proof (cases "k < n")
        case k: True
        have "OrgAt s1 (IteratorAt from_pop k) = empty_org s" using cleared k True by (simp add: E)
        then show ?thesis using L8[OF k] True by simp
      next
        case False
        then show ?thesis
          using OrgAt_invalid[of s1 "IteratorAt from_pop k"] OrgAt_invalid[of s' "IteratorAt from_pop k"]
          by (simp add: valid_f L1)
      qed
    qed
  qed
  have src_lt: "\<And>k. OrgAt s' (IteratorAt from_pop k) < next_ptr s"
    using src1 by (simp add: srcs' E)
  have valid_t: "\<And>k. IsValid s' (IteratorAt to_pop k) = (k < n)"
    using t by (simp add: L1 IsValid_def sz1 E(1))
  have c3: "from_pop \<noteq> to_pop \<longrightarrow>
          (\<forall>k. OrgAt s' (IteratorAt from_pop k) = OrgAt s (IteratorAt from_pop k))"
    using L7 by simp
  have c4: "\<forall>k<n. IsOccupied s' (IteratorAt to_pop k) = IsOccupied s' (IteratorAt from_pop k)"
  proof (intro allI impI)
    fix k assume k: "k < n"
    show "IsOccupied s' (IteratorAt to_pop k) = IsOccupied s' (IteratorAt from_pop k)"
    proof (cases "OrgAt s1 (IteratorAt from_pop k) = empty_org s")
      case True
      then show ?thesis using L8[OF k True] k
        by (simp add: IsOccupied_def srcs' L1 valid_f valid_t[unfolded L1])
    next
      case False
      then show ?thesis using L9[OF k False] k e
        by (simp add: IsOccupied_def srcs' L1 valid_f valid_t[unfolded L1])
    qed
  qed
  have c5: "\<forall>k<n. IsOccupied s' (IteratorAt from_pop k) \<longrightarrow>
          heap s' (OrgAt s' (IteratorAt to_pop k)) = heap s' (OrgAt s' (IteratorAt from_pop k))
        \<and> OrgAt s' (IteratorAt to_pop k) \<in> live s'
        \<and> next_ptr s \<le> OrgAt s' (IteratorAt to_pop k)
        \<and> (\<forall>k'. OrgAt s' (IteratorAt from_pop k') \<noteq> OrgAt s' (IteratorAt to_pop k))
        \<and> (\<forall>k'<n. k' \<noteq> k \<longrightarrow>
              OrgAt s' (IteratorAt to_pop k') \<noteq> OrgAt s' (IteratorAt to_pop k))
        \<and> (\<forall>v. ((heap s')(OrgAt s' (IteratorAt to_pop k) := v)) (OrgAt s' (IteratorAt from_pop k))
               = heap s' (OrgAt s' (IteratorAt from_pop k)))"
  proof (intro allI impI)
    fix k assume k: "k < n" and occ: "IsOccupied s' (IteratorAt from_pop k)"
    from occ have ne: "OrgAt s1 (IteratorAt from_pop k) \<noteq> empty_org s"
      by (simp add: IsOccupied_def srcs' L1)
    note A = L9[OF k ne]
    have ge: "next_ptr s \<le> OrgAt s' (IteratorAt to_pop k)" using A by simp
    have fresh: "\<And>k'. OrgAt s' (IteratorAt from_pop k') \<noteq> OrgAt s' (IteratorAt to_pop k)"
    proof -
      fix k'
      show "OrgAt s' (IteratorAt from_pop k') \<noteq> OrgAt s' (IteratorAt to_pop k)"
        using src_lt[of k'] ge by linarith
    qed
    have "heap s' (OrgAt s' (IteratorAt from_pop k)) = heap s (OrgAt s1 (IteratorAt from_pop k))"
      using L6[OF src_lt[of k]] by (simp add: srcs')
    with A fresh show "heap s' (OrgAt s' (IteratorAt to_pop k)) = heap s' (OrgAt s' (IteratorAt from_pop k))
        \<and> OrgAt s' (IteratorAt to_pop k) \<in> live s'
        \<and> next_ptr s \<le> OrgAt s' (IteratorAt to_pop k)
        \<and> (\<forall>k'. OrgAt s' (IteratorAt from_pop k') \<noteq> OrgAt s' (IteratorAt to_pop k))
        \<and> (\<forall>k'<n. k' \<noteq> k \<longrightarrow>
              OrgAt s' (IteratorAt to_pop k') \<noteq> OrgAt s' (IteratorAt to_pop k))
        \<and> (\<forall>v. ((heap s')(OrgAt s' (IteratorAt to_pop k) := v)) (OrgAt s' (IteratorAt from_pop k))
               = heap s' (OrgAt s' (IteratorAt from_pop k)))"
      by simp
  qed
  have c0: "length (pops s') = length (pops s)" using Ld by (simp add: E(1))
  show ?thesis
    unfolding Let_def run using c0 c3 c4 c5 L6 by (simp add: L1 sz1 n_def[symmetric])
qed


lemma world_CopyPop_hyps:
  "0 < length (pops world)" "1 < length (pops world)" "empty_org world < next_ptr world"
  "\<forall>k<GetSize world 0. OrgAt world (IteratorAt 0 k) < next_ptr world"
proof -
  have A: "\<forall>p\<in>set (orgs (pops world ! 0)). p < next_ptr world" by (simp add: world_def)
  show "\<forall>k<GetSize world 0. OrgAt world (IteratorAt 0 k) < next_ptr world"
  proof (intro allI impI)
    fix k assume k: "k < GetSize world 0"
    then have "orgs (pops world ! 0) ! k \<in> set (orgs (pops world ! 0))"
      by (simp add: GetSize_def)
    moreover have "OrgAt world (IteratorAt 0 k) = orgs (pops world ! 0) ! k"
      using k by (simp add: OrgAt_def IsValid_def) (simp add: world_def)
    ultimately show "OrgAt world (IteratorAt 0 k) < next_ptr world" using A by simp
  qed
qed (simp_all add: world_def)

lemma world_slots:
  "GetSize world 0 = 8" "OrgAt world (IteratorAt 0 2) = 2" "OrgAt world (IteratorAt 0 3) = 1"
  "heap world 2 = Org 10" "empty_org world = 1" "length (pops world) = 2"
  by (simp_all add: OrgAt_def IsValid_def GetSize_def world_def)

section \<open>Injection by name\<close>

lemma size_t_of_minus_one: "size_t_of_int (- 1) = 18446744073709551615"
  by (simp add: size_t_of_int_def)

lemma InjectByName_unknown_pop:
  assumes "GetPopID s pop_name = - 1" and "length (pops s) \<le> 18446744073709551615"
  shows "InjectByName PlaceInject pop_name type_name copy_count s =
           (Inl (VectorOutOfRange 18446744073709551615),
            AddError (InvalidPopName type_name pop_name copy_count) s)"
  using assms
  by (simp add: InjectByName_def Let_def GetPopulation_def size_t_of_minus_one AddError_def)

lemma GetPopID_world_nope: "GetPopID world ''nope'' = - 1"
  by (simp add: GetPopID_def FindEval_def world_def)

lemma length_pops_world: "length (pops world) = 2"
  by (simp add: world_def)

text \<open>
  C9.  \<open>InjectByName\<close> with a population name that matches no population: the claim is that
  an error is recorded and that no population is looked up with the invalid id.  In the
  code the error is recorded and execution goes on to \<open>GetPopulation(pop_id)\<close> with
  \<open>pop_id = -1\<close>, which as a \<open>size_t\<close> is \<open>2^64 - 1\<close>: the vector \<open>pops\<close> is indexed out
  of range.  Evaluated here in the example world, which has no population \<open>nope\<close>.
\<close>

theorem InjectByName_unknown_pop_out_of_range:
  "GetPopID world ''nope'' = - 1
     \<and> fst (InjectByName reject_inject ''nope'' ''Counter'' 1 world)
           = Inl (VectorOutOfRange 18446744073709551615)
     \<and> errors (snd (InjectByName reject_inject ''nope'' ''Counter'' 1 world))
           = [InvalidPopName ''Counter'' ''nope'' 1]"
  by (simp add: InjectByName_unknown_pop[OF GetPopID_world_nope] length_pops_world
        GetPopID_world_nope AddError_def)
     (simp add: world_def)

section \<open>Trait access modes\<close>

text \<open>
  C6.  The access-mode enumeration has a mode of its own for each of PRIVATE, OWNED,
  SHARED, REQUIRED, GENERATED and OPTIONAL (none of them is the unset mode \<open>UNKNOWN\<close>),
  and a module can submit a trait claim under each: \<open>AddPrivateTrait\<close>,
  \<open>AddOwnedTrait\<close>, \<open>AddSharedTrait\<close>, \<open>AddRequiredTrait\<close>, \<open>AddGeneratedTrait\<close> and
  \<open>AddOptionalTrait\<close> submit, for the calling module and the given trait name, a claim
  with exactly the mode they are named after.
\<close>

theorem Access_has_six_modes:
  "distinct [PRIVATE, OWNED, SHARED, REQUIRED, GENERATED, OPTIONAL, UNKNOWN]
     \<and> claim_access (AddPrivateTrait this name desc v count) = PRIVATE
     \<and> claim_access (AddOwnedTrait this name desc v count) = OWNED
     \<and> claim_access (AddSharedTrait this name desc v count) = SHARED
     \<and> claim_access (AddRequiredTrait T0 this name count) = REQUIRED
     \<and> claim_access (AddGeneratedTrait this name desc v count) = GENERATED
     \<and> claim_access (AddOptionalTrait T0 this name desc count) = OPTIONAL
     \<and> map claim_module
           [AddPrivateTrait this name desc v count, AddOwnedTrait this name desc v count,
            AddSharedTrait this name desc v count, AddRequiredTrait T0 this name count,
            AddGeneratedTrait this name desc v count, AddOptionalTrait T0 this name desc count]
         = replicate 6 this
     \<and> map claim_name
           [AddPrivateTrait this name desc v count, AddOwnedTrait this name desc v count,
            AddSharedTrait this name desc v count, AddRequiredTrait T0 this name count,
            AddGeneratedTrait this name desc v count, AddOptionalTrait T0 this name desc count]
         = replicate 6 name"
  by (simp add: AddPrivateTrait_def AddOwnedTrait_def AddSharedTrait_def AddRequiredTrait_def
        AddGeneratedTrait_def AddOptionalTrait_def AddTrait_def numeral_eq_Suc)

section \<open>Injection\<close>

lemma GetModule_world_Counter: "GetModule world ''Counter'' = Inr 1"
  by (simp add: GetModule_def GetModuleID_def FindEval_def size_t_of_int_def world_def)

lemma InjectInstance_reject:
  "InjectInstance reject_inject pop org_ptr s =
     (OrgPosition None 0,
      AddError InjectInstanceFailed (Delete org_ptr (Trigger (OnInjectReady org_ptr pop) s)))"
  by (simp add: InjectInstance_def Let_def reject_inject_def IsValid_def)

text \<open>
  C1.  The claim is that both variants of \<open>Inject\<close> return exactly the positions at which
  an instance was placed, never an invalid one.  The variant that clones a given organism
  inserts the position only in the valid branch.  The variant that builds organisms by type
  name inserts whatever \<open>InjectInstance\<close> returns: with a placement strategy that rejects
  the request, the instance is released, the error is recorded, nothing is placed (no
  \<open>OnPlacement\<close>), and the invalid position is in the returned Collection.
\<close>

theorem Inject_by_type_returns_invalid_position:
  "(case Inject_type reject_inject 1 ''Counter'' 1 world of
      Inl f \<Rightarrow> False
    | Inr (placement_set, s') \<Rightarrow>
        placement_set = {OrgPosition None 0}
      \<and> \<not> IsValid s' (OrgPosition None 0)
      \<and> trace s' = [OnInjectReady 5 1, DeleteOrganism 5]
      \<and> errors s' = [InjectInstanceFailed]
      \<and> pops s' = pops world)
   \<and> fst (Inject reject_inject 1 2 1 world) = {}"
  by (simp add: Inject_type_def GetModule_world_Counter Inject_type_body_def
        InjectInstance_reject Inject_def Inject_body_def CloneOrganism_def reject_inject_def
        NewPtr_def Delete_def AddError_def Trigger_def IsValid_def split_beta)
     (simp add: world_def)


section \<open>Text preprocessing\<close>

lemma Preprocess_no_dollar_loop:
  "CHR ''$'' \<notin> set (drop i out) \<Longrightarrow> Preprocess_loop fpm exec out i = out"
proof (induction "length out - i" arbitrary: i)
  case 0
  then show ?case by (simp add: Preprocess_loop.simps)
next
  case (Suc n)
  then have "i < length out" by simp
  moreover from this Suc.prems have "out ! i \<noteq> CHR ''$''" and "CHR ''$'' \<notin> set (drop (i + 1) out)"
    by (auto simp: Cons_nth_drop_Suc[symmetric])
  moreover have "n = length out - (i + 1)" using Suc.hyps(2) by simp
  ultimately show ?case using Suc.hyps(1)[of "i + 1"]
    by (subst Preprocess_loop.simps) simp
qed

lemma Preprocess_no_dollar:
  "CHR ''$'' \<notin> set in_string \<Longrightarrow> Preprocess fpm exec in_string = in_string"
  by (simp add: Preprocess_def Preprocess_no_dollar_loop)

lemma Preprocess_unmatched_brace:
  assumes "i + 2 < length out" and "out ! i = CHR ''$''" and "out ! (i + 1) = CHR ''{''"
    and "fpm out (i + 1) = i + 1"
  shows "Preprocess_loop fpm exec out i = out"
  using assms by (subst Preprocess_loop.simps) simp

lemma Preprocess_collapses_inner_pair:
  "Preprocess fpm exec ''a$$b'' = ''a$b''"
  unfolding Preprocess_def
  by (subst Preprocess_loop.simps, simp add: erase_def)+

text \<open>
  C10.  The claim has three parts.  A string without \<open>$\<close> comes back unchanged
  (\<open>Preprocess_no_dollar\<close>), and an opening \<open>${\<close> for which the matcher finds no closing
  brace ends the scan with the string as it stands (\<open>Preprocess_unmatched_brace\<close>); both
  hold.  The part "every adjacent pair \<open>$$\<close> is collapsed to a single \<open>$\<close>" is what the
  code sets out to do ("Compress two $$ into on $"), but the test for the pair comes after
  \<open>if (out_string.size() <= i+2) break\<close>, so a pair that ends the string is left as it
  is: \<open>$$\<close> and \<open>x$$\<close> come back unchanged, and of \<open>$$$$\<close> only the first pair is
  collapsed.
\<close>

theorem Preprocess_keeps_trailing_pair:
  "Preprocess fpm exec ''$$'' = ''$$''
     \<and> Preprocess fpm exec ''x$$'' = ''x$$''
     \<and> Preprocess fpm exec ''$$$$'' = ''$$$''"
  unfolding Preprocess_def
  by (intro conjI; (subst Preprocess_loop.simps, simp add: erase_def)+)

section \<open>Moving an organism\<close>

text \<open>
  C3.  For valid positions, \<open>MoveOrg\<close> is \<open>ClearOrgAt\<close> on the target followed by
  \<open>SwapOrgs\<close>.  When the target held a real organism, \<open>BeforeDeath\<close> fires for the target
  in a state in which the slot still holds that organism, the slot is then given the
  sentinel and the organism is deleted, and the swap follows: the trace grows by exactly
  \<open>BeforeDeath\<close>, the deletion, \<open>BeforeSwap\<close>, \<open>OnSwap\<close>.  Afterwards the source slot
  holds the very pointer \<open>empty_org\<close>; nothing was allocated (\<open>next_ptr\<close> and \<open>heap\<close> are
  as before), so it is the shared sentinel and not a new empty organism.  The target holds
  what the source held.
\<close>

theorem MoveOrg_clears_then_swaps:
  assumes "IsValid s from_pos" and "IsValid s to_pos"
  shows "MoveOrg from_pos to_pos s = SwapOrgs from_pos to_pos (ClearOrgAt to_pos s)
       \<and> (IsOccupied s to_pos \<longrightarrow>
            ClearOrgAt to_pos s =
              Delete (OrgAt s to_pos) (SetOrg to_pos (empty_org s) (Trigger (BeforeDeath to_pos) s))
          \<and> OrgAt (Trigger (BeforeDeath to_pos) s) to_pos = OrgAt s to_pos
          \<and> trace (MoveOrg from_pos to_pos s) =
              trace s @ [BeforeDeath to_pos, DeleteOrganism (OrgAt s to_pos),
                         BeforeSwap from_pos to_pos, OnSwap from_pos to_pos]
          \<and> OrgAt s to_pos \<notin> live (MoveOrg from_pos to_pos s))
       \<and> OrgAt (MoveOrg from_pos to_pos s) from_pos = empty_org (MoveOrg from_pos to_pos s)
       \<and> empty_org (MoveOrg from_pos to_pos s) = empty_org s
       \<and> next_ptr (MoveOrg from_pos to_pos s) = next_ptr s
       \<and> heap (MoveOrg from_pos to_pos s) = heap s
       \<and> (from_pos \<noteq> to_pos \<longrightarrow> OrgAt (MoveOrg from_pos to_pos s) to_pos = OrgAt s from_pos)"
  using assms
  by (auto simp: MoveOrg_def SwapOrgs_def ClearOrgAt_def Let_def OrgAt_SetOrg IsOccupied_def)

lemma world_positions:
  "IsValid world (IteratorAt 0 2)" "IsValid world (IteratorAt 1 0)"
  "IsOccupied world (IteratorAt 1 0)" "OrgAt world (IteratorAt 1 0) = 4"
  "OrgAt world (IteratorAt 0 2) = 2" "empty_org world = 1" "trace world = []"
  by (simp_all add: IsValid_def IsOccupied_def OrgAt_def GetSize_def world_def)

theorem MoveOrg_clears_then_swaps_witness:
  "IsValid world (IteratorAt 0 2) \<and> IsValid world (IteratorAt 1 0)
     \<and> IsOccupied world (IteratorAt 1 0) \<and> IteratorAt 0 2 \<noteq> IteratorAt 1 0
     \<and> trace (MoveOrg (IteratorAt 0 2) (IteratorAt 1 0) world) =
          [BeforeDeath (IteratorAt 1 0), DeleteOrganism 4,
           BeforeSwap (IteratorAt 0 2) (IteratorAt 1 0), OnSwap (IteratorAt 0 2) (IteratorAt 1 0)]
     \<and> 4 \<notin> live (MoveOrg (IteratorAt 0 2) (IteratorAt 1 0) world)
     \<and> OrgAt (MoveOrg (IteratorAt 0 2) (IteratorAt 1 0) world) (IteratorAt 0 2) = 1
     \<and> OrgAt (MoveOrg (IteratorAt 0 2) (IteratorAt 1 0) world) (IteratorAt 1 0) = 2"
  using MoveOrg_clears_then_swaps[OF world_positions(1) world_positions(2), THEN conjunct2]
    world_positions
  by simp


section \<open>The signal bus\<close>

lemma UpdateSignals_module_upto:
  "j \<le> length sp \<Longrightarrow>
   length (fold (\<lambda>sig_id sp. if hs sig_id then sp[sig_id := sp ! sig_id @ [m]] else sp) [0..<j] sp)
     = length sp
 \<and> (\<forall>i<length sp.
       fold (\<lambda>sig_id sp. if hs sig_id then sp[sig_id := sp ! sig_id @ [m]] else sp) [0..<j] sp ! i
         = (if i < j \<and> hs i then sp ! i @ [m] else sp ! i))"
proof (induction j)
  case 0
  show ?case by simp
next
  case (Suc j)
  then show ?case by (auto simp: nth_list_update less_Suc_eq)
qed

lemma UpdateSignals_module_nth:
  "length (UpdateSignals_module m hs sp) = length sp"
  "i < length sp \<Longrightarrow> UpdateSignals_module m hs sp ! i = (if hs i then sp ! i @ [m] else sp ! i)"
  using UpdateSignals_module_upto[of "length sp" sp hs m]
  by (simp_all add: UpdateSignals_module_def)

lemma UpdateSignals_modules_upto:
  "length (fold (\<lambda>m. UpdateSignals_module m (hs m)) [0..<j] (map (\<lambda>modv. []) sp)) = length sp
 \<and> (\<forall>i<length sp.
       fold (\<lambda>m. UpdateSignals_module m (hs m)) [0..<j] (map (\<lambda>modv. []) sp) ! i
         = filter (\<lambda>m. hs m i) [0..<j])"
proof (induction j)
  case 0
  show ?case by simp
next
  case (Suc j)
  then show ?case by (simp add: UpdateSignals_module_nth)
qed

lemma sig_ptrs_UpdateSignals:
  "length (sig_ptrs (UpdateSignals s)) = length (sig_ptrs s)"
  "sig_id < length (sig_ptrs s) \<Longrightarrow>
     sig_ptrs (UpdateSignals s) ! sig_id
       = filter (\<lambda>m. has_signal (modules s ! m) sig_id) [0..<length (modules s)]"
  using UpdateSignals_modules_upto[of "\<lambda>m. has_signal (modules s ! m)" "length (modules s)" "sig_ptrs s"]
  by (simp_all add: UpdateSignals_def Let_def)

lemma sig_ptrs_UpdateSignals_eq:
  "sig_ptrs (UpdateSignals s)
     = map (\<lambda>sig_id. filter (\<lambda>m. has_signal (modules s ! m) sig_id) [0..<length (modules s)])
         [0..<length (sig_ptrs s)]"
  by (rule nth_equalityI) (simp_all add: sig_ptrs_UpdateSignals)

lemma UpdateSignals_other_fields:
  "modules (UpdateSignals s) = modules s" "rescan_signals (UpdateSignals s) = False"
  "pops (UpdateSignals s) = pops s" "trace (UpdateSignals s) = trace s"
  by (simp_all add: UpdateSignals_def Let_def)

text \<open>
  C7.  \<open>UpdateSignals\<close> rebuilds every channel's list from the modules' \<open>has_signal\<close>
  bits alone: channel \<open>sig_id\<close> ends up with exactly the modules whose bit \<open>sig_id\<close> is
  set, in registration order, whatever the lists held before; the number of channels and
  the modules are untouched and the rescan flag is cleared.  Two controllers with the same
  modules and the same number of channels get the same lists, and running the rescan a
  second time changes nothing.
\<close>

theorem UpdateSignals_rebuilds:
  "length (sig_ptrs (UpdateSignals s)) = length (sig_ptrs s)
     \<and> (\<forall>sig_id<length (sig_ptrs s).
           sig_ptrs (UpdateSignals s) ! sig_id
             = filter (\<lambda>m. has_signal (modules s ! m) sig_id) [0..<length (modules s)])
     \<and> (\<forall>sig_id<length (sig_ptrs s). \<forall>m.
           m \<in> set (sig_ptrs (UpdateSignals s) ! sig_id)
             \<longleftrightarrow> m < length (modules s) \<and> has_signal (modules s ! m) sig_id)
     \<and> (\<forall>sig_id<length (sig_ptrs s).
           sorted (sig_ptrs (UpdateSignals s) ! sig_id)
         \<and> distinct (sig_ptrs (UpdateSignals s) ! sig_id))
     \<and> modules (UpdateSignals s) = modules s
     \<and> rescan_signals (UpdateSignals s) = False
     \<and> (modules s2 = modules s \<and> length (sig_ptrs s2) = length (sig_ptrs s)
          \<longrightarrow> sig_ptrs (UpdateSignals s2) = sig_ptrs (UpdateSignals s))
     \<and> UpdateSignals (UpdateSignals s) = UpdateSignals s"
proof -
  have idem: "UpdateSignals (UpdateSignals s) = UpdateSignals s"
  proof -
    have "sig_ptrs (UpdateSignals (UpdateSignals s)) = sig_ptrs (UpdateSignals s)"
      by (simp add: sig_ptrs_UpdateSignals_eq[of "UpdateSignals s"] UpdateSignals_other_fields
            sig_ptrs_UpdateSignals(1))
         (simp add: sig_ptrs_UpdateSignals_eq[of s])
    then show ?thesis
      by (simp add: UpdateSignals_def[of "UpdateSignals s"] Let_def)
         (simp add: UpdateSignals_def[of s] Let_def)
  qed
  have pure: "modules s2 = modules s \<and> length (sig_ptrs s2) = length (sig_ptrs s)
          \<longrightarrow> sig_ptrs (UpdateSignals s2) = sig_ptrs (UpdateSignals s)"
    by (simp add: sig_ptrs_UpdateSignals_eq)
  show ?thesis
    using idem pure
    by (simp add: sig_ptrs_UpdateSignals UpdateSignals_other_fields sorted_wrt_filter)
qed


lemma upt_0_3: "[0..<3] = [0, 1, 2]"
  by code_simp

theorem UpdateSignals_rebuilds_witness:
  "3 < length (sig_ptrs world) \<and> 0 < length (sig_ptrs world)
     \<and> sig_ptrs world ! 3 = [] \<and> sig_ptrs (UpdateSignals world) ! 3 = [1, 2]
     \<and> sig_ptrs world ! 0 = [2] \<and> sig_ptrs (UpdateSignals world) ! 0 = []
     \<and> has_signal (modules world ! 2) 3 \<and> 2 \<in> set (sig_ptrs (UpdateSignals world) ! 3)
     \<and> \<not> has_signal (modules world ! 0) 3 \<and> 0 \<notin> set (sig_ptrs (UpdateSignals world) ! 3)
     \<and> modules (world\<lparr>sig_ptrs := [[], [0], [0], [0], [0]]\<rparr>) = modules world
     \<and> sig_ptrs (UpdateSignals (world\<lparr>sig_ptrs := [[], [0], [0], [0], [0]]\<rparr>))
           = sig_ptrs (UpdateSignals world)
     \<and> UpdateSignals (UpdateSignals world) = UpdateSignals world"
proof -
  note T = UpdateSignals_rebuilds[where s = world and ?s2.0 = "world\<lparr>sig_ptrs := [[], [0], [0], [0], [0]]\<rparr>"]
  note T2 = T[THEN conjunct2, THEN conjunct1, rule_format]
  note T3 = T[THEN conjunct2, THEN conjunct2, THEN conjunct1, rule_format]
  note T7 = T[THEN conjunct2, THEN conjunct2, THEN conjunct2, THEN conjunct2, THEN conjunct2,
              THEN conjunct2, THEN conjunct1]
  note T8 = T[THEN conjunct2, THEN conjunct2, THEN conjunct2, THEN conjunct2, THEN conjunct2,
              THEN conjunct2, THEN conjunct2]
  have a: "sig_ptrs (UpdateSignals world) ! 3 = [1, 2]" "sig_ptrs (UpdateSignals world) ! 0 = []"
    using T2[of 3] T2[of 0] by (simp_all add: upt_0_3 world_def)
  have b: "2 \<in> set (sig_ptrs (UpdateSignals world) ! 3)" "0 \<notin> set (sig_ptrs (UpdateSignals world) ! 3)"
    using T3[of 3 2] T3[of 3 0] by (simp_all add: world_def)
  have c: "sig_ptrs (UpdateSignals (world\<lparr>sig_ptrs := [[], [0], [0], [0], [0]]\<rparr>))
           = sig_ptrs (UpdateSignals world)"
    using T7 by (simp add: world_def)
  show ?thesis using a b c T8 by (simp add: world_def)
qed


section \<open>Teardown\<close>

lemma trace_ClearOrgAt:
  "trace (ClearOrgAt pos s) =
     trace s @ (if IsOccupied s pos then [BeforeDeath pos, DeleteOrganism (OrgAt s pos)] else [])"
  by (simp add: ClearOrgAt_def Let_def)

lemma IsOccupied_cong:
  "IsValid s' pos = IsValid s pos \<Longrightarrow> OrgAt s' pos = OrgAt s pos \<Longrightarrow> empty_org s' = empty_org s
   \<Longrightarrow> IsOccupied s' pos = IsOccupied s pos"
  by (simp add: IsOccupied_def)

lemma trace_ClearPop_upto:
  "trace (fold (\<lambda>k. ClearOrgAt (IteratorAt pop k)) [0..<j] s) =
     trace s @ concat (map (\<lambda>k. if IsOccupied s (IteratorAt pop k)
                               then [BeforeDeath (IteratorAt pop k),
                                     DeleteOrganism (OrgAt s (IteratorAt pop k))]
                               else []) [0..<j])"
proof (induction j)
  case 0
  show ?case by simp
next
  case (Suc j)
  have "IsOccupied (fold (\<lambda>k. ClearOrgAt (IteratorAt pop k)) [0..<j] s) (IteratorAt pop j)
          = IsOccupied s (IteratorAt pop j)"
    by (rule IsOccupied_cong) (simp_all add: ClearPop_upto_fields OrgAt_ClearPop_upto)
  then show ?case
    by (simp add: trace_ClearOrgAt Suc OrgAt_ClearPop_upto)
qed

lemma live_ClearPop_upto:
  "live (fold (\<lambda>k. ClearOrgAt (IteratorAt pop k)) [0..<j] s) =
     live s - {OrgAt s (IteratorAt pop k) | k. k < j \<and> IsOccupied s (IteratorAt pop k)}"
proof (induction j)
  case 0
  show ?case by simp
next
  case (Suc j)
  have "IsOccupied (fold (\<lambda>k. ClearOrgAt (IteratorAt pop k)) [0..<j] s) (IteratorAt pop j)
          = IsOccupied s (IteratorAt pop j)"
    by (rule IsOccupied_cong) (simp_all add: ClearPop_upto_fields OrgAt_ClearPop_upto)
  then show ?case
    by (auto simp: live_ClearOrgAt Suc OrgAt_ClearPop_upto less_Suc_eq)
qed

lemma trace_ClearPop:
  "trace (ClearPop pop s) =
     trace s @ concat (map (\<lambda>k. if IsOccupied s (IteratorAt pop k)
                               then [BeforeDeath (IteratorAt pop k),
                                     DeleteOrganism (OrgAt s (IteratorAt pop k))]
                               else []) [0..<GetSize s pop])"
  by (simp add: ClearPop_def trace_ClearPop_upto)

lemma live_ClearPop:
  "live (ClearPop pop s) =
     live s - {OrgAt s (IteratorAt pop k) | k. IsOccupied s (IteratorAt pop k)}"
proof -
  have "\<And>k. IsOccupied s (IteratorAt pop k) \<Longrightarrow> k < GetSize s pop"
    by (simp add: IsOccupied_def IsValid_def)
  then have "{OrgAt s (IteratorAt pop k) | k. k < GetSize s pop \<and> IsOccupied s (IteratorAt pop k)}
           = {OrgAt s (IteratorAt pop k) | k. IsOccupied s (IteratorAt pop k)}"
    by auto
  then show ?thesis by (simp add: ClearPop_def live_ClearPop_upto)
qed

lemma Delete_population_fields [simp]:
  "pops (Delete_population p s) = pops s" "empty_org (Delete_population p s) = empty_org s"
  "heap (Delete_population p s) = heap s" "live (Delete_population p s) = live s"
  "next_ptr (Delete_population p s) = next_ptr s" "modules (Delete_population p s) = modules s"
  "trace (Delete_population p s) = trace s @ [DeletePopulation p]"
  by (simp_all add: Delete_population_def)

lemma Delete_population_pops [simp]:
  "GetSize (Delete_population p s) = GetSize s" "IsValid (Delete_population p s) = IsValid s"
  "OrgAt (Delete_population p s) = OrgAt s"
  by (rule GetSize_pops IsValid_pops OrgAt_pops, simp)+

lemma Delete_module_fold:
  "trace (fold Delete_module [0..<m] s) = trace s @ map DeleteModule [0..<m]
 \<and> pops (fold Delete_module [0..<m] s) = pops s
 \<and> empty_org (fold Delete_module [0..<m] s) = empty_org s
 \<and> live (fold Delete_module [0..<m] s) = live s
 \<and> heap (fold Delete_module [0..<m] s) = heap s"
  by (induction m) (simp_all add: Delete_module_def)


lemma destructor_pops_upto:
  fixes s :: "'g MABE"
  defines "step \<equiv> (\<lambda>pop (st :: 'g MABE). Delete_population pop (ClearPop pop st))"
  defines "evs \<equiv> (\<lambda>pop. concat (map (\<lambda>k. if IsOccupied s (IteratorAt pop k)
                               then [BeforeDeath (IteratorAt pop k),
                                     DeleteOrganism (OrgAt s (IteratorAt pop k))]
                               else []) [0..<GetSize s pop]) @ [DeletePopulation pop])"
  shows "trace (fold step [0..<i] s) = trace s @ concat (map evs [0..<i])
       \<and> empty_org (fold step [0..<i] s) = empty_org s
       \<and> IsValid (fold step [0..<i] s) = IsValid s
       \<and> GetSize (fold step [0..<i] s) = GetSize s
       \<and> length (pops (fold step [0..<i] s)) = length (pops s)
       \<and> heap (fold step [0..<i] s) = heap s
       \<and> (\<forall>pos. OrgAt (fold step [0..<i] s) pos =
              (if IsValid s pos \<and> (\<exists>p<i. PopPtr pos = Some p) then empty_org s else OrgAt s pos))
       \<and> live (fold step [0..<i] s) =
              live s - {OrgAt s pos | pos. IsOccupied s pos \<and> (\<exists>p<i. PopPtr pos = Some p)}"
proof (induction i)
  case 0
  show ?case by simp
next
  case (Suc i)
  define si where "si = fold step [0..<i] s"
  have IH: "trace si = trace s @ concat (map evs [0..<i])" "empty_org si = empty_org s"
    "IsValid si = IsValid s" "GetSize si = GetSize s" "length (pops si) = length (pops s)"
    "heap si = heap s"
    "\<And>pos. OrgAt si pos =
        (if IsValid s pos \<and> (\<exists>p<i. PopPtr pos = Some p) then empty_org s else OrgAt s pos)"
    "live si = live s - {OrgAt s pos | pos. IsOccupied s pos \<and> (\<exists>p<i. PopPtr pos = Some p)}"
    using Suc unfolding si_def by simp_all
  have next_state: "fold step [0..<Suc i] s = Delete_population i (ClearPop i si)"
    by (simp add: si_def step_def)
  have at_i: "\<And>k. OrgAt si (IteratorAt i k) = OrgAt s (IteratorAt i k)"
    by (simp add: IH(7))
  have occ_i: "\<And>k. IsOccupied si (IteratorAt i k) = IsOccupied s (IteratorAt i k)"
    by (simp add: IsOccupied_def IH(2,3) at_i)
  have tr: "trace (Delete_population i (ClearPop i si)) = trace s @ concat (map evs [0..<Suc i])"
    by (simp add: trace_ClearPop IH(1,4) at_i occ_i evs_def cong: if_cong)
  have org: "\<forall>pos. OrgAt (Delete_population i (ClearPop i si)) pos =
              (if IsValid s pos \<and> (\<exists>p<Suc i. PopPtr pos = Some p) then empty_org s else OrgAt s pos)"
    by (auto simp: OrgAt_ClearPop IH(2,3,7) less_Suc_eq)
  have "{OrgAt s pos | pos. IsOccupied s pos \<and> (\<exists>p<Suc i. PopPtr pos = Some p)}
        = {OrgAt s pos | pos. IsOccupied s pos \<and> (\<exists>p<i. PopPtr pos = Some p)}
          \<union> {OrgAt s (IteratorAt i k) | k. IsOccupied s (IteratorAt i k)}"
    (is "?A = ?B \<union> ?C")
  proof
    show "?A \<subseteq> ?B \<union> ?C"
    proof
      fix x assume "x \<in> ?A"
      then obtain pos p where x: "x = OrgAt s pos" and o: "IsOccupied s pos"
        and p: "p < Suc i" "PopPtr pos = Some p" by auto
      show "x \<in> ?B \<union> ?C"
      proof (cases "p < i")
        case True
        then show ?thesis using x o p by auto
      next
        case False
        then have "pos = IteratorAt i (Pos pos)" using p by simp
        then show ?thesis using x o by (metis (mono_tags, lifting) UnI2 mem_Collect_eq)
      qed
    qed
    show "?B \<union> ?C \<subseteq> ?A"
      by (auto simp: less_Suc_eq)
  qed
  then have lv: "live (Delete_population i (ClearPop i si)) =
              live s - {OrgAt s pos | pos. IsOccupied s pos \<and> (\<exists>p<Suc i. PopPtr pos = Some p)}"
    by (simp add: live_ClearPop IH(8) at_i occ_i Diff_eq Int_assoc)
  show ?case
    unfolding next_state using tr org lv by (simp add: IH(2-6))
qed


lemma in_concat_map: "x \<in> set (f p) \<Longrightarrow> p \<in> set ps \<Longrightarrow> x \<in> set (concat (map f ps))"
  by auto

text \<open>
  C5.  The destructor runs the same steps however the run ended.  The trace grows by,
  in this order: \<open>BeforeExit\<close>; the deletion of every module; for each population in
  turn, \<open>BeforeDeath\<close> and the deletion of each real organism it holds, then the deletion
  of the population; and last, when there is a sentinel, the deletion of the sentinel.  The
  sentinel is deleted nowhere before that.  Every population's deletion and every real
  organism's deletion is among the events, every slot ends holding the sentinel, and no
  real organism and no sentinel stays live.
\<close>

theorem destructor_order:
  "(let cleared =
          concat (map (\<lambda>pop.
             concat (map (\<lambda>k. if IsOccupied s (IteratorAt pop k)
                               then [BeforeDeath (IteratorAt pop k),
                                     DeleteOrganism (OrgAt s (IteratorAt pop k))]
                               else []) [0..<GetSize s pop]) @ [DeletePopulation pop])
             [0..<length (pops s)])
    in trace (destructor s) =
         trace s @ [BeforeExit] @ map DeleteModule [0..<length (modules s)] @ cleared
           @ (if empty_org s \<noteq> 0 then [DeleteOrganism (empty_org s)] else [])
     \<and> DeleteOrganism (empty_org s) \<notin> set cleared
     \<and> (\<forall>pop<length (pops s). DeletePopulation pop \<in> set cleared)
     \<and> (\<forall>pos. IsOccupied s pos \<longrightarrow> DeleteOrganism (OrgAt s pos) \<in> set cleared))
   \<and> (\<forall>pos. IsValid s pos \<longrightarrow> OrgAt (destructor s) pos = empty_org s)
   \<and> (\<forall>pos. IsOccupied s pos \<longrightarrow> OrgAt s pos \<notin> live (destructor s))
   \<and> (empty_org s \<noteq> 0 \<longrightarrow> empty_org s \<notin> live (destructor s))"
proof -
  define s1 where "s1 = Trigger BeforeExit s"
  define s2 where "s2 = fold Delete_module [0..<length (modules s1)] s1"
  define s3 where
    "s3 = fold (\<lambda>pop st. Delete_population pop (ClearPop pop st)) [0..<length (pops s2)] s2"
  have run: "destructor s = (if empty_org s3 \<noteq> 0 then Delete (empty_org s3) s3 else s3)"
    by (simp add: destructor_def Let_def s1_def s2_def s3_def)
  note M = Delete_module_fold[of "length (modules s1)" s1, folded s2_def]
  have s2_eq: "pops s2 = pops s" "empty_org s2 = empty_org s" "live s2 = live s"
    "trace s2 = trace s @ [BeforeExit] @ map DeleteModule [0..<length (modules s)]"
    using M by (simp_all add: s1_def)
  have s2_fun: "OrgAt s2 = OrgAt s" "IsValid s2 = IsValid s" "GetSize s2 = GetSize s"
    by (rule OrgAt_pops IsValid_pops GetSize_pops, simp add: s2_eq)+
  have s2_occ: "IsOccupied s2 = IsOccupied s"
    by (simp add: fun_eq_iff IsOccupied_def s2_fun s2_eq)
  note P = destructor_pops_upto[where s = s2 and i = "length (pops s2)", folded s3_def,
             unfolded s2_fun s2_occ s2_eq]
  define cleared where "cleared =
          concat (map (\<lambda>pop.
             concat (map (\<lambda>k. if IsOccupied s (IteratorAt pop k)
                               then [BeforeDeath (IteratorAt pop k),
                                     DeleteOrganism (OrgAt s (IteratorAt pop k))]
                               else []) [0..<GetSize s pop]) @ [DeletePopulation pop])
             [0..<length (pops s)])"
  have tr3: "trace s3 = trace s @ [BeforeExit] @ map DeleteModule [0..<length (modules s)] @ cleared"
    using P[THEN conjunct1] by (simp add: cleared_def)
  have e3: "empty_org s3 = empty_org s" using P by simp
  have org3: "\<And>pos. OrgAt s3 pos =
      (if IsValid s pos \<and> (\<exists>p<length (pops s). PopPtr pos = Some p) then empty_org s else OrgAt s pos)"
    using P by simp
  have live3: "live s3 = live s - {OrgAt s pos | pos. IsOccupied s pos \<and> (\<exists>p<length (pops s). PopPtr pos = Some p)}"
    using P by simp
  have valid_pop: "\<And>pos. IsValid s pos \<Longrightarrow> \<exists>p<length (pops s). PopPtr pos = Some p"
    by (auto simp: IsValid_def split: option.splits)
  have c1: "trace (destructor s) =
         trace s @ [BeforeExit] @ map DeleteModule [0..<length (modules s)] @ cleared
           @ (if empty_org s \<noteq> 0 then [DeleteOrganism (empty_org s)] else [])"
    by (simp add: run e3 tr3)
  have c2: "DeleteOrganism (empty_org s) \<notin> set cleared"
    by (auto simp: cleared_def IsOccupied_def)
  have c3: "\<forall>pop<length (pops s). DeletePopulation pop \<in> set cleared"
    by (auto simp: cleared_def)
  have c4: "\<forall>pos. IsOccupied s pos \<longrightarrow> DeleteOrganism (OrgAt s pos) \<in> set cleared"
  proof (intro allI impI)
    fix pos assume o: "IsOccupied s pos"
    then have v: "IsValid s pos" by (simp add: IsOccupied_def)
    then obtain p where p: "p < length (pops s)" "PopPtr pos = Some p" using valid_pop by blast
    have k: "Pos pos < GetSize s p" using v p by (simp add: IsValid_def)
    have pos: "IteratorAt p (Pos pos) = pos" using p by (cases pos) (simp add: IteratorAt_def)
    have o': "IsOccupied s (IteratorAt p (Pos pos))" unfolding pos by (rule o)
    have "DeleteOrganism (OrgAt s (IteratorAt p (Pos pos))) \<in>
            set (concat (map (\<lambda>k. if IsOccupied s (IteratorAt p k)
                               then [BeforeDeath (IteratorAt p k),
                                     DeleteOrganism (OrgAt s (IteratorAt p k))]
                               else []) [0..<GetSize s p]))"
      using o' k by (auto intro!: bexI[of _ "Pos pos"])
    then have "DeleteOrganism (OrgAt s pos) \<in>
            set (concat (map (\<lambda>k. if IsOccupied s (IteratorAt p k)
                               then [BeforeDeath (IteratorAt p k),
                                     DeleteOrganism (OrgAt s (IteratorAt p k))]
                               else []) [0..<GetSize s p]))"
      unfolding pos .
    then have "DeleteOrganism (OrgAt s pos) \<in>
            set (concat (map (\<lambda>k. if IsOccupied s (IteratorAt p k)
                               then [BeforeDeath (IteratorAt p k),
                                     DeleteOrganism (OrgAt s (IteratorAt p k))]
                               else []) [0..<GetSize s p]) @ [DeletePopulation p])"
      by simp
    moreover have "p \<in> set [0..<length (pops s)]" using p(1) by simp
    ultimately show "DeleteOrganism (OrgAt s pos) \<in> set cleared"
      unfolding cleared_def by (rule in_concat_map)
  qed
  have c5: "\<forall>pos. IsValid s pos \<longrightarrow> OrgAt (destructor s) pos = empty_org s"
    using valid_pop by (simp add: run org3)
  have c6: "\<forall>pos. IsOccupied s pos \<longrightarrow> OrgAt s pos \<notin> live (destructor s)"
  proof (intro allI impI)
    fix pos assume o: "IsOccupied s pos"
    then have "\<exists>p<length (pops s). PopPtr pos = Some p" using valid_pop by (simp add: IsOccupied_def)
    with o have "OrgAt s pos \<notin> live s3" by (auto simp: live3)
    then show "OrgAt s pos \<notin> live (destructor s)" by (simp add: run)
  qed
  have c7: "empty_org s \<noteq> 0 \<longrightarrow> empty_org s \<notin> live (destructor s)"
    by (simp add: run e3)
  show ?thesis
    unfolding Let_def cleared_def[symmetric] using c1 c2 c3 c4 c5 c6 c7 by simp
qed


lemma upt_0_2: "[0..<2] = [0, 1]"
  by code_simp

lemma upt_0_8: "[0..<8] = [0, 1, 2, 3, 4, 5, 6, 7]"
  by code_simp

theorem destructor_order_witness:
  "empty_org world \<noteq> 0 \<and> 1 < length (pops world)
     \<and> IsOccupied world (IteratorAt 0 2) \<and> IsValid world (IteratorAt 0 2)
     \<and> trace (destructor world) =
          [BeforeExit, DeleteModule 0, DeleteModule 1, DeleteModule 2,
           BeforeDeath (IteratorAt 0 2), DeleteOrganism 2,
           BeforeDeath (IteratorAt 0 5), DeleteOrganism 3, DeletePopulation 0,
           BeforeDeath (IteratorAt 1 0), DeleteOrganism 4, DeletePopulation 1,
           DeleteOrganism 1]
     \<and> OrgAt (destructor world) (IteratorAt 0 2) = 1
     \<and> 2 \<notin> live (destructor world)
     \<and> 1 \<notin> live (destructor world)"
proof -
  note T = destructor_order[of world, unfolded Let_def]
  have w: "empty_org world = 1" "length (pops world) = 2" "length (modules world) = 3"
    "GetSize world 0 = 8" "GetSize world 1 = 2" "trace world = []"
    by (simp_all add: world_def GetSize_def)
  have occ: "IsOccupied world (IteratorAt 0 2)" "IsValid world (IteratorAt 0 2)"
    "OrgAt world (IteratorAt 0 2) = 2"
    by (simp_all add: IsOccupied_def IsValid_def OrgAt_def GetSize_def world_def)
  have tr: "trace (destructor world) =
          [BeforeExit, DeleteModule 0, DeleteModule 1, DeleteModule 2,
           BeforeDeath (IteratorAt 0 2), DeleteOrganism 2,
           BeforeDeath (IteratorAt 0 5), DeleteOrganism 3, DeletePopulation 0,
           BeforeDeath (IteratorAt 1 0), DeleteOrganism 4, DeletePopulation 1,
           DeleteOrganism 1]"
    using T[THEN conjunct1, THEN conjunct1]
    by (simp add: w upt_0_2 upt_0_3 upt_0_8)
       (simp add: IsOccupied_def IsValid_def OrgAt_def GetSize_def world_def)
  have cl: "OrgAt (destructor world) (IteratorAt 0 2) = 1"
    using T[THEN conjunct2, THEN conjunct1, rule_format, OF occ(2)] by (simp add: w)
  have l2: "2 \<notin> live (destructor world)"
    using T[THEN conjunct2, THEN conjunct2, THEN conjunct1, rule_format, OF occ(1)]
    by (simp add: occ)
  have l1: "1 \<notin> live (destructor world)"
    using T[THEN conjunct2, THEN conjunct2, THEN conjunct2] by (simp add: w)
  show ?thesis using tr cl l2 l1 occ by (simp add: w)
qed


section \<open>Birth\<close>






lemma DoBirth_body_dangling:
  "org \<notin> live st \<Longrightarrow>
   DoBirth_body PlaceBirth mutate org ppos target_pop do_mutations i (bl, st)
     = Inl (DanglingParent org)"
  by (simp add: DoBirth_body_def)

















section \<open>Random positions\<close>

lemma GetRandomPos_eq:
  "GetRandomPos pop s =
     (IteratorAt pop (draws (random_gen s) (used (random_gen s)) mod GetSize s pop),
      s\<lparr>random_gen := (random_gen s)\<lparr>used := Suc (used (random_gen s))\<rparr>\<rparr>)"
  by (simp add: GetRandomPos_def GetUInt_def)

lemma random_gen_update_pops [simp]:
  "pops (s\<lparr>random_gen := r\<rparr>) = pops s" "empty_org (s\<lparr>random_gen := r\<rparr>) = empty_org s"
  by simp_all

lemma random_gen_update_funs [simp]:
  "GetSize (s\<lparr>random_gen := r\<rparr>) = GetSize s" "IsValid (s\<lparr>random_gen := r\<rparr>) = IsValid s"
  "OrgAt (s\<lparr>random_gen := r\<rparr>) = OrgAt s"
  by (rule GetSize_pops IsValid_pops OrgAt_pops, simp)+

lemma random_gen_update_occ [simp]:
  "IsOccupied (s\<lparr>random_gen := r\<rparr>) = IsOccupied s"
  "pos_IsEmpty (s\<lparr>random_gen := r\<rparr>) = pos_IsEmpty s"
  by (simp_all add: fun_eq_iff IsOccupied_def pos_IsEmpty_def)

lemma valid_draw:
  "pop < length (pops s) \<Longrightarrow> 0 < GetSize s pop \<Longrightarrow> IsValid s (IteratorAt pop (d mod GetSize s pop))"
  by (simp add: IsValid_def)

lemma GetRandomOrgPos_unfold:
  "GetRandomOrgPos pop s =
     (if pos_IsEmpty s (IteratorAt pop (draws (random_gen s) (used (random_gen s)) mod GetSize s pop))
      then GetRandomOrgPos pop (s\<lparr>random_gen := (random_gen s)\<lparr>used := Suc (used (random_gen s))\<rparr>\<rparr>)
      else Some (IteratorAt pop (draws (random_gen s) (used (random_gen s)) mod GetSize s pop),
                 s\<lparr>random_gen := (random_gen s)\<lparr>used := Suc (used (random_gen s))\<rparr>\<rparr>))"
  unfolding GetRandomOrgPos_def
  by (subst GetRandomOrgPos_loop.simps) (simp add: GetRandomPos_eq)

lemma GetRandomOrgPos_hits:
  assumes "pop < length (pops s)"
    and "IsOccupied s (IteratorAt pop (draws (random_gen s) (used (random_gen s) + k) mod GetSize s pop))"
  shows "\<exists>j\<le>k.
       GetRandomOrgPos pop s =
         Some (IteratorAt pop (draws (random_gen s) (used (random_gen s) + j) mod GetSize s pop),
               s\<lparr>random_gen := (random_gen s)\<lparr>used := used (random_gen s) + j + 1\<rparr>\<rparr>)
     \<and> IsOccupied s (IteratorAt pop (draws (random_gen s) (used (random_gen s) + j) mod GetSize s pop))"
  using assms
proof (induction k arbitrary: s)
  case 0
  then have "\<not> pos_IsEmpty s (IteratorAt pop (draws (random_gen s) (used (random_gen s)) mod GetSize s pop))"
    by (simp add: IsOccupied_def pos_IsEmpty_def)
  then show ?case
    using 0 by (subst GetRandomOrgPos_unfold) simp
next
  case (Suc k)
  define p0 where "p0 = IteratorAt pop (draws (random_gen s) (used (random_gen s)) mod GetSize s pop)"
  define s1 where "s1 = s\<lparr>random_gen := (random_gen s)\<lparr>used := Suc (used (random_gen s))\<rparr>\<rparr>"
  show ?case
  proof (cases "pos_IsEmpty s p0")
    case False
    have v: "IsValid s p0"
      using Suc.prems by (simp add: p0_def IsValid_def IsOccupied_def)
    then have "IsOccupied s p0" using False by (simp add: IsOccupied_def pos_IsEmpty_def)
    moreover have "GetRandomOrgPos pop s = Some (p0, s1)"
      using False by (subst GetRandomOrgPos_unfold) (simp add: p0_def s1_def)
    ultimately show ?thesis
      by (intro exI[of _ 0]) (simp add: p0_def s1_def)
  next
    case True
    have step: "GetRandomOrgPos pop s = GetRandomOrgPos pop s1"
      using True by (subst GetRandomOrgPos_unfold) (simp add: p0_def s1_def)
    have "pop < length (pops s1)" using Suc.prems by (simp add: s1_def)
    moreover have "IsOccupied s1 (IteratorAt pop
        (draws (random_gen s1) (used (random_gen s1) + k) mod GetSize s1 pop))"
      using Suc.prems(2) by (simp add: s1_def)
    ultimately obtain j where J: "j \<le> k"
       "GetRandomOrgPos pop s1 =
            Some (IteratorAt pop (draws (random_gen s1) (used (random_gen s1) + j) mod GetSize s1 pop),
                  s1\<lparr>random_gen := (random_gen s1)\<lparr>used := used (random_gen s1) + j + 1\<rparr>\<rparr>)"
       "IsOccupied s1 (IteratorAt pop (draws (random_gen s1) (used (random_gen s1) + j) mod GetSize s1 pop))"
      using Suc.IH[of s1] by blast
    show ?thesis
      using J step
      by (intro exI[of _ "Suc j"]) (simp add: s1_def)
  qed
qed

lemma GetRandomOrgPos_loop_never_hits:
  assumes "GetRandomOrgPos_loop pop ps = Some res"
  shows "\<not> (pop < length (pops (snd ps)) \<and> 0 < GetSize (snd ps) pop
            \<and> (\<forall>k. \<not> IsOccupied (snd ps) (IteratorAt pop
                   (draws (random_gen (snd ps)) (used (random_gen (snd ps)) + k)
                      mod GetSize (snd ps) pop)))
            \<and> PopPtr (fst ps) = Some pop \<and> Pos (fst ps) < GetSize (snd ps) pop
            \<and> \<not> IsOccupied (snd ps) (fst ps))"
proof (rule GetRandomOrgPos_loop.raw_induct[OF _ assms])
  fix loop :: "nat \<Rightarrow> OrgPosition \<times> 'a MABE \<Rightarrow> (OrgPosition \<times> 'a MABE) option"
    and pop ps res
  assume IH: "\<And>pop ps res. loop pop ps = Some res \<Longrightarrow>
          \<not> (pop < length (pops (snd ps)) \<and> 0 < GetSize (snd ps) pop
            \<and> (\<forall>k. \<not> IsOccupied (snd ps) (IteratorAt pop
                   (draws (random_gen (snd ps)) (used (random_gen (snd ps)) + k)
                      mod GetSize (snd ps) pop)))
            \<and> PopPtr (fst ps) = Some pop \<and> Pos (fst ps) < GetSize (snd ps) pop
            \<and> \<not> IsOccupied (snd ps) (fst ps))"
    and body: "(if pos_IsEmpty (snd ps) (fst ps) then loop pop (GetRandomPos pop (snd ps))
                else Some ps) = Some res"
  show "\<not> (pop < length (pops (snd ps)) \<and> 0 < GetSize (snd ps) pop
            \<and> (\<forall>k. \<not> IsOccupied (snd ps) (IteratorAt pop
                   (draws (random_gen (snd ps)) (used (random_gen (snd ps)) + k)
                      mod GetSize (snd ps) pop)))
            \<and> PopPtr (fst ps) = Some pop \<and> Pos (fst ps) < GetSize (snd ps) pop
            \<and> \<not> IsOccupied (snd ps) (fst ps))"
  proof
    assume A: "pop < length (pops (snd ps)) \<and> 0 < GetSize (snd ps) pop
            \<and> (\<forall>k. \<not> IsOccupied (snd ps) (IteratorAt pop
                   (draws (random_gen (snd ps)) (used (random_gen (snd ps)) + k)
                      mod GetSize (snd ps) pop)))
            \<and> PopPtr (fst ps) = Some pop \<and> Pos (fst ps) < GetSize (snd ps) pop
            \<and> \<not> IsOccupied (snd ps) (fst ps)"
    then have v: "IsValid (snd ps) (fst ps)" by (simp add: IsValid_def)
    then have e: "pos_IsEmpty (snd ps) (fst ps)"
      using A by (simp add: IsOccupied_def pos_IsEmpty_def)
    with body have run: "loop pop (GetRandomPos pop (snd ps)) = Some res" by simp
    have never: "\<And>k. \<not> IsOccupied (snd ps) (IteratorAt pop
                   (draws (random_gen (snd ps)) (used (random_gen (snd ps)) + k)
                      mod GetSize (snd ps) pop))"
      using A by blast
    have "pop < length (pops (snd (GetRandomPos pop (snd ps))))
        \<and> 0 < GetSize (snd (GetRandomPos pop (snd ps))) pop
        \<and> (\<forall>k. \<not> IsOccupied (snd (GetRandomPos pop (snd ps))) (IteratorAt pop
               (draws (random_gen (snd (GetRandomPos pop (snd ps))))
                  (used (random_gen (snd (GetRandomPos pop (snd ps)))) + k)
                  mod GetSize (snd (GetRandomPos pop (snd ps))) pop)))
        \<and> PopPtr (fst (GetRandomPos pop (snd ps))) = Some pop
        \<and> Pos (fst (GetRandomPos pop (snd ps))) < GetSize (snd (GetRandomPos pop (snd ps))) pop
        \<and> \<not> IsOccupied (snd (GetRandomPos pop (snd ps))) (fst (GetRandomPos pop (snd ps)))"
      using A never[of 0] never[of "Suc _"] by (simp add: GetRandomPos_eq)
    with IH[OF run] show False by blast
  qed
qed

lemma GetRandomOrgPos_never_hits:
  assumes "pop < length (pops s)" and "0 < GetSize s pop"
    and "\<forall>k. \<not> IsOccupied s (IteratorAt pop
                   (draws (random_gen s) (used (random_gen s) + k) mod GetSize s pop))"
  shows "GetRandomOrgPos pop s = None"
proof (cases "GetRandomOrgPos pop s")
  case None
  then show ?thesis .
next
  case (Some res)
  then have run: "GetRandomOrgPos_loop pop (GetRandomPos pop s) = Some res"
    by (simp add: GetRandomOrgPos_def)
  have never: "\<And>k. \<not> IsOccupied s (IteratorAt pop
                   (draws (random_gen s) (used (random_gen s) + k) mod GetSize s pop))"
    using assms(3) by blast
  from GetRandomOrgPos_loop_never_hits[OF run] assms(1,2) never[of 0] never[of "Suc _"]
  show ?thesis
    by (simp add: GetRandomPos_eq)
qed

lemma GetRandomOrgPos_no_slots:
  assumes "GetSize s pop = 0"
  shows "\<exists>pos s'. GetRandomOrgPos pop s = Some (pos, s') \<and> \<not> IsValid s' pos
           \<and> \<not> IsOccupied s' pos"
proof -
  have inv: "\<And>k. \<not> IsValid s (IteratorAt pop k)"
    using assms by (simp add: IsValid_def)
  define d where "d = draws (random_gen s) (used (random_gen s)) mod GetSize s pop"
  define s1 where "s1 = s\<lparr>random_gen := (random_gen s)\<lparr>used := Suc (used (random_gen s))\<rparr>\<rparr>"
  have "\<not> pos_IsEmpty s (IteratorAt pop d)"
    using inv by (simp add: pos_IsEmpty_def)
  then have eq: "GetRandomOrgPos pop s = Some (IteratorAt pop d, s1)"
    unfolding d_def s1_def by (subst GetRandomOrgPos_unfold) simp
  have "\<not> IsValid s1 (IteratorAt pop d)" "\<not> IsOccupied s1 (IteratorAt pop d)"
    using inv by (simp_all add: s1_def IsOccupied_def)
  with eq show ?thesis by blast
qed

text \<open>
  C8.  \<open>emp::Random\<close> is represented by the sequence of values it will deliver, so that
  what the loop does for each such sequence can be stated.  If the population holds at
  least one living organism and the generator delivers each index of the population at
  some draw from now on (a uniform generator does, with probability one),
  \<open>GetRandomOrgPos\<close> returns, and the position it returns is in the population and
  occupied; the call changes nothing but the generator.  If no draw ever selects an
  occupied slot of a population that has slots, the loop does not return; that is so in
  particular when the population has slots and no living organism, whatever the generator
  delivers.  Hence, for a population with slots, a call that returns had a living organism
  to find.  A population without slots is a case apart: every position in it is invalid,
  no position is empty, and the call returns at once with an invalid position.
\<close>

theorem GetRandomOrgPos_returns_occupied:
  "(pop < length (pops s)
      \<and> (\<exists>j<GetSize s pop. IsOccupied s (IteratorAt pop j))
      \<and> (\<forall>v<GetSize s pop. \<exists>k.
            draws (random_gen s) (used (random_gen s) + k) mod GetSize s pop = v)
      \<longrightarrow> (\<exists>pos s'. GetRandomOrgPos pop s = Some (pos, s')
             \<and> IsOccupied s' pos \<and> PopPtr pos = Some pop
             \<and> pops s' = pops s \<and> empty_org s' = empty_org s \<and> heap s' = heap s
             \<and> live s' = live s \<and> trace s' = trace s))
   \<and> (pop < length (pops s) \<and> 0 < GetSize s pop
        \<and> (\<forall>k. \<not> IsOccupied s (IteratorAt pop
                   (draws (random_gen s) (used (random_gen s) + k) mod GetSize s pop)))
      \<longrightarrow> GetRandomOrgPos pop s = None)
   \<and> (pop < length (pops s) \<and> 0 < GetSize s pop
        \<and> (\<forall>j<GetSize s pop. \<not> IsOccupied s (IteratorAt pop j))
      \<longrightarrow> GetRandomOrgPos pop s = None)
   \<and> (pop < length (pops s) \<and> 0 < GetSize s pop \<and> GetRandomOrgPos pop s \<noteq> None
      \<longrightarrow> (\<exists>j<GetSize s pop. IsOccupied s (IteratorAt pop j)))
   \<and> (GetSize s pop = 0
      \<longrightarrow> (\<exists>pos s'. GetRandomOrgPos pop s = Some (pos, s') \<and> \<not> IsValid s' pos
             \<and> \<not> IsOccupied s' pos))"
proof -
  have a: "pop < length (pops s)
      \<and> (\<exists>j<GetSize s pop. IsOccupied s (IteratorAt pop j))
      \<and> (\<forall>v<GetSize s pop. \<exists>k.
            draws (random_gen s) (used (random_gen s) + k) mod GetSize s pop = v)
      \<longrightarrow> (\<exists>pos s'. GetRandomOrgPos pop s = Some (pos, s')
             \<and> IsOccupied s' pos \<and> PopPtr pos = Some pop
             \<and> pops s' = pops s \<and> empty_org s' = empty_org s \<and> heap s' = heap s
             \<and> live s' = live s \<and> trace s' = trace s)"
  proof
    assume A: "pop < length (pops s)
      \<and> (\<exists>j<GetSize s pop. IsOccupied s (IteratorAt pop j))
      \<and> (\<forall>v<GetSize s pop. \<exists>k.
            draws (random_gen s) (used (random_gen s) + k) mod GetSize s pop = v)"
    then obtain j where j: "j < GetSize s pop" "IsOccupied s (IteratorAt pop j)" by blast
    with A obtain k where
      k: "draws (random_gen s) (used (random_gen s) + k) mod GetSize s pop = j" by blast
    have hit: "IsOccupied s (IteratorAt pop
                 (draws (random_gen s) (used (random_gen s) + k) mod GetSize s pop))"
      using j(2) by (simp add: k)
    from A have v: "pop < length (pops s)" by simp
    from GetRandomOrgPos_hits[OF v hit] obtain i where J:
      "GetRandomOrgPos pop s =
         Some (IteratorAt pop (draws (random_gen s) (used (random_gen s) + i) mod GetSize s pop),
               s\<lparr>random_gen := (random_gen s)\<lparr>used := used (random_gen s) + i + 1\<rparr>\<rparr>)"
      "IsOccupied s (IteratorAt pop (draws (random_gen s) (used (random_gen s) + i) mod GetSize s pop))"
      by blast
    show "\<exists>pos s'. GetRandomOrgPos pop s = Some (pos, s')
             \<and> IsOccupied s' pos \<and> PopPtr pos = Some pop
             \<and> pops s' = pops s \<and> empty_org s' = empty_org s \<and> heap s' = heap s
             \<and> live s' = live s \<and> trace s' = trace s"
      by (intro exI[of _ "IteratorAt pop (draws (random_gen s) (used (random_gen s) + i) mod GetSize s pop)"]
                exI[of _ "s\<lparr>random_gen := (random_gen s)\<lparr>used := used (random_gen s) + i + 1\<rparr>\<rparr>"])
         (simp add: J)
  qed
  have b: "pop < length (pops s) \<and> 0 < GetSize s pop
        \<and> (\<forall>k. \<not> IsOccupied s (IteratorAt pop
                   (draws (random_gen s) (used (random_gen s) + k) mod GetSize s pop)))
      \<longrightarrow> GetRandomOrgPos pop s = None"
    using GetRandomOrgPos_never_hits[of pop s] by blast
  have c: "pop < length (pops s) \<and> 0 < GetSize s pop
        \<and> (\<forall>j<GetSize s pop. \<not> IsOccupied s (IteratorAt pop j))
      \<longrightarrow> GetRandomOrgPos pop s = None"
  proof
    assume B: "pop < length (pops s) \<and> 0 < GetSize s pop
        \<and> (\<forall>j<GetSize s pop. \<not> IsOccupied s (IteratorAt pop j))"
    then have "\<forall>k. \<not> IsOccupied s (IteratorAt pop
                   (draws (random_gen s) (used (random_gen s) + k) mod GetSize s pop))"
      by simp
    with B show "GetRandomOrgPos pop s = None"
      by (intro GetRandomOrgPos_never_hits) simp_all
  qed
  from c have d: "pop < length (pops s) \<and> 0 < GetSize s pop \<and> GetRandomOrgPos pop s \<noteq> None
      \<longrightarrow> (\<exists>j<GetSize s pop. IsOccupied s (IteratorAt pop j))"
    by auto
  have e: "GetSize s pop = 0
      \<longrightarrow> (\<exists>pos s'. GetRandomOrgPos pop s = Some (pos, s') \<and> \<not> IsValid s' pos
             \<and> \<not> IsOccupied s' pos)"
    using GetRandomOrgPos_no_slots[of s pop] by blast
  show ?thesis using a b c d e by (intro conjI)
qed

text \<open>
  A living organism in the population is not enough for the call to return, and a
  population without living organisms does not always make it loop.  With a generator that
  keeps delivering the index of an empty slot the loop does not return, although slot 2
  of the population is occupied; and on a population without slots the call returns.
\<close>

theorem GetRandomOrgPos_may_not_return:
  "IsOccupied stuck_world (IteratorAt 0 2)
     \<and> GetRandomOrgPos 0 stuck_world = None
     \<and> GetSize empty_world 0 = 0
     \<and> map_option fst (GetRandomOrgPos 0 empty_world) = Some (IteratorAt 0 0)"
proof (intro conjI)
  show "GetRandomOrgPos 0 stuck_world = None"
    by (rule GetRandomOrgPos_never_hits)
       (simp_all add: stuck_world_def world_def IsOccupied_def IsValid_def GetSize_def
          IteratorAt_def pos_IsEmpty_def OrgAt_def)
  show "IsOccupied stuck_world (IteratorAt 0 2)"
    by (simp add: stuck_world_def world_def IsOccupied_def IsValid_def GetSize_def
          IteratorAt_def pos_IsEmpty_def OrgAt_def)
  show "GetSize empty_world 0 = 0"
    by (simp add: empty_world_def GetSize_def)
  show "map_option fst (GetRandomOrgPos 0 empty_world) = Some (IteratorAt 0 0)"
    by (subst GetRandomOrgPos_unfold)
       (simp add: empty_world_def world_def pos_IsEmpty_def IsValid_def GetSize_def)
qed

theorem GetRandomOrgPos_returns_occupied_witness:
  "(\<exists>pos s'. GetRandomOrgPos 0 world = Some (pos, s')
        \<and> IsOccupied s' pos \<and> PopPtr pos = Some 0 \<and> pops s' = pops world)
   \<and> IsOccupied world (IteratorAt 0 2)
   \<and> GetSize world 0 = 8
   \<and> GetRandomOrgPos 0 stuck_world = None
   \<and> GetRandomOrgPos 0 barren_world = None
   \<and> GetSize barren_world 0 = 3
   \<and> (\<exists>pos s'. GetRandomOrgPos 0 empty_world = Some (pos, s') \<and> \<not> IsValid s' pos)"
proof -
  have size: "GetSize world 0 = 8"
    by (simp add: world_def GetSize_def)
  have occ: "IsOccupied world (IteratorAt 0 2)"
    by (simp add: world_def IsOccupied_def IsValid_def GetSize_def IteratorAt_def OrgAt_def)
  have fair: "\<forall>v<GetSize world 0. \<exists>k.
      draws (random_gen world) (used (random_gen world) + k) mod GetSize world 0 = v"
  proof (intro allI impI)
    fix v assume "v < GetSize world 0"
    then have "draws (random_gen world) (used (random_gen world) + v) mod GetSize world 0 = v"
      by (simp add: world_def)
    then show "\<exists>k. draws (random_gen world) (used (random_gen world) + k) mod GetSize world 0 = v" ..
  qed
  have hyp1: "0 < length (pops world)
      \<and> (\<exists>j<GetSize world 0. IsOccupied world (IteratorAt 0 j))
      \<and> (\<forall>v<GetSize world 0. \<exists>k.
            draws (random_gen world) (used (random_gen world) + k) mod GetSize world 0 = v)"
  proof (intro conjI)
    show "0 < length (pops world)" by (simp add: world_def)
    show "\<exists>j<GetSize world 0. IsOccupied world (IteratorAt 0 j)"
      using occ by (intro exI[of _ 2]) (simp add: size)
    show "\<forall>v<GetSize world 0. \<exists>k.
            draws (random_gen world) (used (random_gen world) + k) mod GetSize world 0 = v"
      by (rule fair)
  qed
  from GetRandomOrgPos_returns_occupied[of 0 world, THEN conjunct1] hyp1
  have a: "\<exists>pos s'. GetRandomOrgPos 0 world = Some (pos, s')
        \<and> IsOccupied s' pos \<and> PopPtr pos = Some 0 \<and> pops s' = pops world"
    by blast
  have hyp2: "0 < length (pops stuck_world) \<and> 0 < GetSize stuck_world 0
      \<and> (\<forall>k. \<not> IsOccupied stuck_world (IteratorAt 0
             (draws (random_gen stuck_world) (used (random_gen stuck_world) + k)
                mod GetSize stuck_world 0)))"
    by (simp add: stuck_world_def world_def IsOccupied_def IsValid_def GetSize_def
          IteratorAt_def OrgAt_def)
  from GetRandomOrgPos_returns_occupied[of 0 stuck_world, THEN conjunct2, THEN conjunct1] hyp2
  have b: "GetRandomOrgPos 0 stuck_world = None"
    by blast
  have bsize: "GetSize barren_world 0 = 3"
    by (simp add: barren_world_def world_def GetSize_def)
  have hyp3: "0 < length (pops barren_world) \<and> 0 < GetSize barren_world 0
      \<and> (\<forall>j<GetSize barren_world 0. \<not> IsOccupied barren_world (IteratorAt 0 j))"
    by (simp add: barren_world_def world_def IsOccupied_def IsValid_def GetSize_def
          IteratorAt_def OrgAt_def nth_Cons split: nat.splits)
  from GetRandomOrgPos_returns_occupied[of 0 barren_world, THEN conjunct2, THEN conjunct2,
         THEN conjunct1] hyp3
  have c: "GetRandomOrgPos 0 barren_world = None"
    by blast
  have hyp5: "GetSize empty_world 0 = 0"
    by (simp add: empty_world_def GetSize_def)
  from GetRandomOrgPos_returns_occupied[of 0 empty_world, THEN conjunct2, THEN conjunct2,
         THEN conjunct2, THEN conjunct2] hyp5
  have e: "\<exists>pos s'. GetRandomOrgPos 0 empty_world = Some (pos, s') \<and> \<not> IsValid s' pos"
    by blast
  show ?thesis using a occ size b c bsize e by (intro conjI)
qed


section \<open>Copying one population onto another\<close>

lemma IsOccupied_eqI:
  assumes "length (pops s') = length (pops s)" and "GetSize s' pop = GetSize s pop"
    and "OrgAt s' (IteratorAt pop k) = OrgAt s (IteratorAt pop k)"
    and "empty_org s' = empty_org s"
  shows "IsOccupied s' (IteratorAt pop k) = IsOccupied s (IteratorAt pop k)"
  using assms by (simp add: IsOccupied_def IsValid_def)

text \<open>
  C4.  \<open>CopyPop\<close> from one population to another one, in a well-formed store (the sentinel
  and the source's organisms were allocated earlier, so their addresses are below
  \<open>next_ptr\<close>).  Afterwards the destination has the size the source had and is occupied at
  exactly the indices at which the source was; the source's slots are as they were, and no
  object that existed before is changed.  Each occupied slot \<open>k\<close> of the destination holds
  a live object allocated during the call, with the content of the source's organism at
  \<open>k\<close>; that object is in no slot of the source and in no other slot of the destination,
  so writing to it leaves the source's organism as it is.
\<close>

theorem CopyPop_clones:
  assumes "from_pop < length (pops s)" and "to_pop < length (pops s)"
    and "from_pop \<noteq> to_pop"
    and "empty_org s < next_ptr s"
    and "\<forall>k<GetSize s from_pop. OrgAt s (IteratorAt from_pop k) < next_ptr s"
  shows "let s' = CopyPop from_pop to_pop s in
      GetSize s' to_pop = GetSize s from_pop
    \<and> GetSize s' from_pop = GetSize s from_pop
    \<and> (\<forall>k. OrgAt s' (IteratorAt from_pop k) = OrgAt s (IteratorAt from_pop k))
    \<and> (\<forall>p<next_ptr s. heap s' p = heap s p)
    \<and> (\<forall>k<GetSize s from_pop.
          IsOccupied s' (IteratorAt to_pop k) = IsOccupied s (IteratorAt from_pop k))
    \<and> (\<forall>k<GetSize s from_pop. IsOccupied s (IteratorAt from_pop k) \<longrightarrow>
          heap s' (OrgAt s' (IteratorAt to_pop k)) = heap s (OrgAt s (IteratorAt from_pop k))
        \<and> OrgAt s' (IteratorAt to_pop k) \<in> live s'
        \<and> next_ptr s \<le> OrgAt s' (IteratorAt to_pop k)
        \<and> (\<forall>k'. OrgAt s' (IteratorAt from_pop k') \<noteq> OrgAt s' (IteratorAt to_pop k))
        \<and> (\<forall>k'<GetSize s from_pop. k' \<noteq> k \<longrightarrow>
              OrgAt s' (IteratorAt to_pop k') \<noteq> OrgAt s' (IteratorAt to_pop k))
        \<and> (\<forall>v. ((heap s')(OrgAt s' (IteratorAt to_pop k) := v)) (OrgAt s (IteratorAt from_pop k))
               = heap s (OrgAt s (IteratorAt from_pop k))))"
proof -
  define s' where "s' = CopyPop from_pop to_pop s"
  note P = CopyPop_post[OF assms(1,2,4,5), unfolded Let_def, folded s'_def]
  have len: "length (pops s') = length (pops s)" and e: "empty_org s' = empty_org s"
    and hp: "\<forall>p<next_ptr s. heap s' p = heap s p"
    and szt: "GetSize s' to_pop = GetSize s from_pop"
    and szf: "GetSize s' from_pop = GetSize s from_pop"
    using P by simp_all
  have src: "\<And>k. OrgAt s' (IteratorAt from_pop k) = OrgAt s (IteratorAt from_pop k)"
    using P assms(3) by simp
  have occ_src: "\<And>k. IsOccupied s' (IteratorAt from_pop k) = IsOccupied s (IteratorAt from_pop k)"
    by (rule IsOccupied_eqI[OF len szf src e])
  have occ: "\<forall>k<GetSize s from_pop.
          IsOccupied s' (IteratorAt to_pop k) = IsOccupied s (IteratorAt from_pop k)"
    using P occ_src by simp
  have clones: "\<forall>k<GetSize s from_pop. IsOccupied s (IteratorAt from_pop k) \<longrightarrow>
          heap s' (OrgAt s' (IteratorAt to_pop k)) = heap s (OrgAt s (IteratorAt from_pop k))
        \<and> OrgAt s' (IteratorAt to_pop k) \<in> live s'
        \<and> next_ptr s \<le> OrgAt s' (IteratorAt to_pop k)
        \<and> (\<forall>k'. OrgAt s' (IteratorAt from_pop k') \<noteq> OrgAt s' (IteratorAt to_pop k))
        \<and> (\<forall>k'<GetSize s from_pop. k' \<noteq> k \<longrightarrow>
              OrgAt s' (IteratorAt to_pop k') \<noteq> OrgAt s' (IteratorAt to_pop k))
        \<and> (\<forall>v. ((heap s')(OrgAt s' (IteratorAt to_pop k) := v)) (OrgAt s (IteratorAt from_pop k))
               = heap s (OrgAt s (IteratorAt from_pop k)))"
  proof (intro allI impI)
    fix k assume k: "k < GetSize s from_pop" and o: "IsOccupied s (IteratorAt from_pop k)"
    have o': "IsOccupied s' (IteratorAt from_pop k)" using o by (simp add: occ_src)
    note Q = P[THEN conjunct2, THEN conjunct2, THEN conjunct2, THEN conjunct2, THEN conjunct2,
               THEN conjunct2, THEN conjunct2, rule_format, OF k o']
    have old: "heap s' (OrgAt s (IteratorAt from_pop k)) = heap s (OrgAt s (IteratorAt from_pop k))"
      using hp assms(5) k by simp
    show "heap s' (OrgAt s' (IteratorAt to_pop k)) = heap s (OrgAt s (IteratorAt from_pop k))
        \<and> OrgAt s' (IteratorAt to_pop k) \<in> live s'
        \<and> next_ptr s \<le> OrgAt s' (IteratorAt to_pop k)
        \<and> (\<forall>k'. OrgAt s' (IteratorAt from_pop k') \<noteq> OrgAt s' (IteratorAt to_pop k))
        \<and> (\<forall>k'<GetSize s from_pop. k' \<noteq> k \<longrightarrow>
              OrgAt s' (IteratorAt to_pop k') \<noteq> OrgAt s' (IteratorAt to_pop k))
        \<and> (\<forall>v. ((heap s')(OrgAt s' (IteratorAt to_pop k) := v)) (OrgAt s (IteratorAt from_pop k))
               = heap s (OrgAt s (IteratorAt from_pop k)))"
      using Q old by (simp add: src)
  qed
  show ?thesis
    unfolding Let_def s'_def[symmetric]
    by (intro conjI) (rule szt szf hp occ clones allI src)+
qed

lemma fold_fixed: "\<forall>x\<in>set xs. f x s = s \<Longrightarrow> fold f xs s = s"
  by (induction xs) simp_all

lemma CopyPop_same:
  assumes "t < length (pops s)"
  shows "CopyPop t t s = EmptyPop t (GetSize s t) s"
proof -
  note E = EmptyPop_facts[OF assms, where n = "GetSize s t"]
  have "\<forall>k\<in>set [0..<GetSize s t].
          CopyPop_body t t k (EmptyPop t (GetSize s t) s) = EmptyPop t (GetSize s t) s"
    by (simp add: CopyPop_body_skip E(2) E(6))
  then show ?thesis
    by (simp add: CopyPop_def Let_def E(5) fold_fixed)
qed

text \<open>
  Copying a population onto itself is not covered by that: the destination is cleared
  first, which destroys the organisms that were to be copied.  In the example world,
  population 0 is occupied at indices 2 and 5 before the call and nowhere after it.
\<close>

theorem CopyPop_onto_itself_empties:
  "IsOccupied world (IteratorAt 0 2) \<and> IsOccupied world (IteratorAt 0 5)
     \<and> CopyPop 0 0 world = EmptyPop 0 8 world
     \<and> GetSize (CopyPop 0 0 world) 0 = 8
     \<and> \<not> IsOccupied (CopyPop 0 0 world) (IteratorAt 0 2)
     \<and> \<not> IsOccupied (CopyPop 0 0 world) (IteratorAt 0 5)
     \<and> trace (CopyPop 0 0 world) =
         [BeforeDeath (IteratorAt 0 2), DeleteOrganism 2,
          BeforeDeath (IteratorAt 0 5), DeleteOrganism 3,
          BeforePopResize 0 8, OnPopResize 0 8]"
proof -
  have v: "0 < length (pops world)" by (simp add: world_def)
  have sz: "GetSize world 0 = 8" by (simp add: world_def GetSize_def)
  have same: "CopyPop 0 0 world = EmptyPop 0 8 world"
    using CopyPop_same[OF v] by (simp add: sz)
  note E = EmptyPop_facts[OF v, where n = 8]
  have occ: "IsOccupied world (IteratorAt 0 2)" "IsOccupied world (IteratorAt 0 5)"
    by (simp_all add: IsOccupied_def IsValid_def OrgAt_def GetSize_def world_def)
  have emp: "\<not> IsOccupied (EmptyPop 0 8 world) (IteratorAt 0 2)"
    "\<not> IsOccupied (EmptyPop 0 8 world) (IteratorAt 0 5)"
    by (simp_all add: IsOccupied_def E(2) E(6))
  have occs: "map (\<lambda>k. IsOccupied world (IteratorAt 0 k)) [0, 1, 2, 3, 4, 5, 6, 7]
                = [False, False, True, False, False, True, False, False]"
    by (simp add: IsOccupied_def IsValid_def OrgAt_def GetSize_def world_def)
  have orgs: "OrgAt world (IteratorAt 0 2) = 2" "OrgAt world (IteratorAt 0 5) = 3"
    by (simp_all add: IsValid_def OrgAt_def GetSize_def world_def)
  have tr0: "trace world = []" by (simp add: world_def)
  have tr: "trace (EmptyPop 0 8 world) =
         [BeforeDeath (IteratorAt 0 2), DeleteOrganism 2,
          BeforeDeath (IteratorAt 0 5), DeleteOrganism 3,
          BeforePopResize 0 8, OnPopResize 0 8]"
    using occs by (simp add: EmptyPop_def trace_ClearPop sz upt_0_8 orgs tr0)
  show ?thesis
    unfolding same using occ emp tr E(5)[of 0] by simp
qed

lemma world_distinct_pops: "(0::nat) \<noteq> 1"
  by simp

theorem CopyPop_clones_witness:
  "0 < length (pops world) \<and> 1 < length (pops world) \<and> empty_org world < next_ptr world
     \<and> list_all (\<lambda>p. p < next_ptr world) (orgs (pops world ! 0))
     \<and> GetSize world 0 = 8
     \<and> IsOccupied world (IteratorAt 0 2) \<and> \<not> IsOccupied world (IteratorAt 0 3)
     \<and> GetSize (CopyPop 0 1 world) 1 = 8
     \<and> IsOccupied (CopyPop 0 1 world) (IteratorAt 1 2)
     \<and> \<not> IsOccupied (CopyPop 0 1 world) (IteratorAt 1 3)
     \<and> OrgAt (CopyPop 0 1 world) (IteratorAt 0 2) = 2
     \<and> heap (CopyPop 0 1 world) 2 = Org 10
     \<and> heap (CopyPop 0 1 world) (OrgAt (CopyPop 0 1 world) (IteratorAt 1 2)) = Org 10
     \<and> OrgAt (CopyPop 0 1 world) (IteratorAt 1 2) \<noteq> 2
     \<and> OrgAt (CopyPop 0 1 world) (IteratorAt 1 2) \<in> live (CopyPop 0 1 world)"
proof -
  define s' where "s' = CopyPop 0 1 world"
  note T = CopyPop_clones[OF world_CopyPop_hyps(1,2) world_distinct_pops world_CopyPop_hyps(3,4),
             unfolded Let_def, folded s'_def]
  have occ2: "IsOccupied world (IteratorAt 0 2)" and emp3: "\<not> IsOccupied world (IteratorAt 0 3)"
    by (simp_all add: IsOccupied_def IsValid_def world_slots)
  have sz: "GetSize s' 1 = 8"
    using T by (simp add: world_slots)
  have src: "OrgAt s' (IteratorAt 0 2) = 2"
    using T by (simp add: world_slots)
  have old: "heap s' 2 = Org 10"
    using T[THEN conjunct2, THEN conjunct2, THEN conjunct2, THEN conjunct1, rule_format, of 2]
    by (simp add: world_slots) (simp add: world_def)
  note T5 = T[THEN conjunct2, THEN conjunct2, THEN conjunct2, THEN conjunct2, THEN conjunct1,
              rule_format]
  have eq2: "IsOccupied s' (IteratorAt 1 2)" and eq3: "\<not> IsOccupied s' (IteratorAt 1 3)"
    using T5[of 2] T5[of 3] occ2 emp3 by (simp_all add: world_slots)
  note T6 = T[THEN conjunct2, THEN conjunct2, THEN conjunct2, THEN conjunct2, THEN conjunct2,
              rule_format, of 2]
  have clone: "heap s' (OrgAt s' (IteratorAt 1 2)) = heap world (OrgAt world (IteratorAt 0 2))
      \<and> OrgAt s' (IteratorAt 1 2) \<in> live s'
      \<and> next_ptr world \<le> OrgAt s' (IteratorAt 1 2)"
    using T6 occ2 by (simp add: world_slots)
  have np: "next_ptr world = 5" by (simp add: world_def)
  have lst: "list_all (\<lambda>p. p < next_ptr world) (orgs (pops world ! 0))"
    by (simp add: world_def)
  show ?thesis
    unfolding s'_def[symmetric]
    using world_CopyPop_hyps(1-3) lst occ2 emp3 sz eq2 eq3 src old clone
    by (simp add: world_slots np)
qed

end
